theory Spec2Isabelle
  imports Main "HOL-Library.Finite_Map" "HOL-Library.Char_ord" "HOL-Library.List_Lexorder"
    "HOL-Library.Sublist"
begin

section \<open>Values handed to the property-list writer\<close>

text \<open>
  The script builds its document from Python integers, booleans, strings, lists and
  dictionaries with string keys.  A dictionary literal is kept as an association list
  in the order in which the source writes its keys.
\<close>

datatype plist =
    PInt int
  | PBool bool
  | PStr string
  | PArray "plist list"
  | PDict "(string \<times> plist) list"

text \<open>Subscription \<open>d[k]\<close> of a dictionary value, as an option.\<close>

fun dict_get :: "plist \<Rightarrow> string \<Rightarrow> plist option" where
  "dict_get (PDict kvs) k = map_of kvs k"
| "dict_get (PInt _) k = None"
| "dict_get (PBool _) k = None"
| "dict_get (PStr _) k = None"
| "dict_get (PArray _) k = None"

text \<open>The exceptions that the modelled part of Python can raise.\<close>

datatype error =
    KeyError
  | FileNotFoundError
  | FileExistsError
  | NotADirectoryError
  | IsADirectoryError
  | SameFileError
  | OverflowError
  | ValueError
  | PermissionError

section \<open>Building the articulation records\<close>

definition create_articulation_dict :: "int \<Rightarrow> string \<Rightarrow> int \<Rightarrow> plist" where
  "create_articulation_dict articulation_id name mb1_value =
     PDict [(''ArticulationID'', PInt articulation_id),
            (''ID'', PInt (1000 + articulation_id)),
            (''Name'', PStr name),
            (''Output'', PArray [PDict [(''MB1'', PInt mb1_value),
                                        (''Status'', PStr ''Note On'')]])]"

text \<open>
  An articulation mapping is a Python dictionary from integers to strings: a finite map.
  \<open>sorted(articulation_mapping.keys())\<close> is the ascending list of its keys.
\<close>

type_synonym articulation_mapping = "(int, string) fmap"

definition sorted_keys :: "articulation_mapping \<Rightarrow> int list" where
  "sorted_keys articulation_mapping = sorted_list_of_fset (fmdom articulation_mapping)"

text \<open>
  The \<open>for\<close> loop of \<open>generate_articulation_set\<close>: the remaining keys, the list
  \<open>articulations\<close> built so far and the counter \<open>articulation_id\<close>.  The subscription
  \<open>articulation_mapping[midi_note]\<close> raises \<open>KeyError\<close> on a missing key.
\<close>

fun articulations_loop ::
  "articulation_mapping \<Rightarrow> int list \<Rightarrow> plist list \<Rightarrow> int \<Rightarrow> error + plist list" where
  "articulations_loop articulation_mapping [] articulations articulation_id =
     Inr articulations"
| "articulations_loop articulation_mapping (midi_note # rest) articulations articulation_id =
     (case fmlookup articulation_mapping midi_note of
        None \<Rightarrow> Inl KeyError
      | Some articulation_name \<Rightarrow>
          articulations_loop articulation_mapping rest
            (articulations @
               [create_articulation_dict articulation_id articulation_name midi_note])
            (articulation_id + 1))"

subsection \<open>The path functions of \<open>os.path\<close> (POSIX flavour)\<close>

text \<open>\<open>basename(p)\<close> is what follows the last slash; \<open>path_head\<close> is \<open>p[:i]\<close>, the part
  up to and including the last slash.\<close>

definition basename :: "string \<Rightarrow> string" where
  "basename p = rev (takeWhile (\<lambda>c. c \<noteq> CHR ''/'') (rev p))"

definition path_head :: "string \<Rightarrow> string" where
  "path_head p = rev (dropWhile (\<lambda>c. c \<noteq> CHR ''/'') (rev p))"

definition dirname :: "string \<Rightarrow> string" where
  "dirname p =
     (let head = path_head p
      in if head \<noteq> [] \<and> \<not> list_all (\<lambda>c. c = CHR ''/'') head
         then rev (dropWhile (\<lambda>c. c = CHR ''/'') (rev head))
         else head)"

text \<open>\<open>os.path.join(a, b)\<close> for two arguments.\<close>

definition join :: "string \<Rightarrow> string \<Rightarrow> string" where
  "join a b =
     (if b \<noteq> [] \<and> hd b = CHR ''/'' then b
      else if a = [] \<or> last a = CHR ''/'' then a @ b
      else a @ ''/'' @ b)"

text \<open>
  \<open>os.path.splitext(p)\<close>: the extension starts at the last dot of the last component,
  unless only dots precede it there.
\<close>

definition splitext :: "string \<Rightarrow> string \<times> string" where
  "splitext p =
     (let b = basename p;
          ext = rev (takeWhile (\<lambda>c. c \<noteq> CHR ''.'') (rev b));
          stem = take (length b - length ext - 1) b
      in if CHR ''.'' \<in> set b \<and> \<not> list_all (\<lambda>c. c = CHR ''.'') stem
         then (path_head p @ stem, CHR ''.'' # ext)
         else (p, []))"

subsection \<open>The document\<close>

text \<open>
  The dictionary \<open>plist_data\<close> that \<open>generate_articulation_set\<close> builds from the mapping
  and the output path, before anything is written.
\<close>

definition plist_data :: "articulation_mapping \<Rightarrow> string \<Rightarrow> error + plist" where
  "plist_data articulation_mapping output_path =
     (case articulations_loop articulation_mapping (sorted_keys articulation_mapping) [] 1 of
        Inl e \<Rightarrow> Inl e
      | Inr articulations \<Rightarrow>
          (let filename = basename output_path
           in Inr (PDict [(''Articulations'', PArray articulations),
                          (''InputMidiChannel'', PInt (- 1)),
                          (''MultipleOutputsActive'', PBool False),
                          (''Name'', PStr filename),
                          (''OctaveOffset'', PInt 0),
                          (''Switches'', PArray []),
                          (''SwitchingEnabled'', PBool False)])))"

text \<open>Readers of one articulation record, used to state the properties below.\<close>

definition output_note :: "plist \<Rightarrow> int option" where
  "output_note e =
     (case dict_get e ''Output'' of
        Some (PArray [out]) \<Rightarrow>
          (case dict_get out ''MB1'' of Some (PInt n) \<Rightarrow> Some n | _ \<Rightarrow> None)
      | _ \<Rightarrow> None)"

definition int_field :: "string \<Rightarrow> plist \<Rightarrow> int option" where
  "int_field k e = (case dict_get e k of Some (PInt n) \<Rightarrow> Some n | _ \<Rightarrow> None)"

definition str_field :: "string \<Rightarrow> plist \<Rightarrow> string option" where
  "str_field k e = (case dict_get e k of Some (PStr s) \<Rightarrow> Some s | _ \<Rightarrow> None)"

section \<open>The file system\<close>

text \<open>
  A file holds either the bytes that \<open>plistlib.dump\<close> produces for a document
  (\<open>Dumped\<close>) or any other bytes (\<open>Raw\<close>).  A directory lists its entries by name;
  the order of the list is the order in which \<open>os.listdir\<close> reports them.
  Symbolic links, permissions and the component \<open>..\<close> are outside the model.
\<close>

datatype data = Raw string | Dumped plist

datatype node = File data | Dir "(string \<times> node) list"

fun lookup :: "string list \<Rightarrow> node \<Rightarrow> node option" where
  "lookup [] n = Some n"
| "lookup (c # cs) (File d) = None"
| "lookup (c # cs) (Dir es) =
     (case map_of es c of None \<Rightarrow> None | Some m \<Rightarrow> lookup cs m)"

text \<open>
  \<open>alter p v t\<close> sets the entry at the non-empty path \<open>p\<close> to \<open>v\<close> (\<open>None\<close> removes
  it); the parent of \<open>p\<close> has to be a directory of \<open>t\<close>.
\<close>

fun alter :: "string list \<Rightarrow> node option \<Rightarrow> node \<Rightarrow> node option" where
  "alter [] v n = None"
| "alter (c # cs) v (File d) = None"
| "alter [c] v (Dir es) =
     Some (Dir (case v of None \<Rightarrow> AList.delete c es | Some new \<Rightarrow> AList.update c new es))"
| "alter (c # c' # cs) v (Dir es) =
     (case map_of es c of
        None \<Rightarrow> None
      | Some m \<Rightarrow>
          (case alter (c' # cs) v m of
             None \<Rightarrow> None
           | Some m' \<Rightarrow> Some (Dir (AList.update c m' es))))"

text \<open>The error of a system call on a path that does not resolve.\<close>

fun absent_error :: "string list \<Rightarrow> node \<Rightarrow> error" where
  "absent_error [] n = FileNotFoundError"
| "absent_error (c # cs) (File d) = NotADirectoryError"
| "absent_error (c # cs) (Dir es) =
     (case map_of es c of None \<Rightarrow> FileNotFoundError | Some m \<Rightarrow> absent_error cs m)"

text \<open>
  \<open>os.makedirs(p, exist_ok=True)\<close> on a resolved path: every missing directory on the
  way is created; a regular file at the end raises \<open>FileExistsError\<close>, one on the way
  \<open>NotADirectoryError\<close>.
\<close>

fun mkdirs :: "string list \<Rightarrow> node \<Rightarrow> error + node" where
  "mkdirs [] (Dir es) = Inr (Dir es)"
| "mkdirs [] (File d) = Inl FileExistsError"
| "mkdirs (c # cs) (File d) = Inl NotADirectoryError"
| "mkdirs (c # cs) (Dir es) =
     (case mkdirs cs (case map_of es c of None \<Rightarrow> Dir [] | Some m \<Rightarrow> m) of
        Inl e \<Rightarrow> Inl e
      | Inr m' \<Rightarrow> Inr (Dir (AList.update c m' es)))"

subsection \<open>Paths as Python writes them\<close>

fun split_sep :: "string \<Rightarrow> string list" where
  "split_sep [] = [[]]"
| "split_sep (c # cs) =
     (if c = CHR ''/'' then [] # split_sep cs
      else (case split_sep cs of
              [] \<Rightarrow> [[c]]
            | w # ws \<Rightarrow> (c # w) # ws))"

definition components :: "string \<Rightarrow> string list" where
  "components p = filter (\<lambda>c. c \<noteq> [] \<and> c \<noteq> ''.'') (split_sep p)"

text \<open>
  The state of a run: the tree under \<open>/\<close>, the working directory, the home directory
  that \<open>os.path.expanduser\<close> reads, and the lines printed so far on the two streams.
\<close>

record state =
  fs :: node
  cwd :: "string list"
  home :: string
  stdout :: "string list"
  stderr :: "string list"

definition resolve :: "state \<Rightarrow> string \<Rightarrow> string list" where
  "resolve st p =
     (if p \<noteq> [] \<and> hd p = CHR ''/'' then components p else cwd st @ components p)"

definition print :: "string \<Rightarrow> state \<Rightarrow> state" where
  "print line st = st\<lparr>stdout := stdout st @ [line]\<rparr>"

definition print_err :: "string \<Rightarrow> state \<Rightarrow> state" where
  "print_err line st = st\<lparr>stderr := stderr st @ [line]\<rparr>"

subsection \<open>The calls of \<open>os\<close>, \<open>shutil\<close> and \<open>plistlib\<close> that the script makes\<close>

definition os_path_exists :: "state \<Rightarrow> string \<Rightarrow> bool" where
  "os_path_exists st p = (p \<noteq> [] \<and> lookup (resolve st p) (fs st) \<noteq> None)"

definition os_path_isdir :: "state \<Rightarrow> string \<Rightarrow> bool" where
  "os_path_isdir st p =
     (p \<noteq> [] \<and> (case lookup (resolve st p) (fs st) of Some (Dir es) \<Rightarrow> True | _ \<Rightarrow> False))"

definition os_listdir :: "state \<Rightarrow> string \<Rightarrow> error + string list" where
  "os_listdir st p =
     (if p = [] then Inl FileNotFoundError
      else case lookup (resolve st p) (fs st) of
             None \<Rightarrow> Inl (absent_error (resolve st p) (fs st))
           | Some (File d) \<Rightarrow> Inl NotADirectoryError
           | Some (Dir es) \<Rightarrow> Inr (map fst es))"

definition os_makedirs :: "string \<Rightarrow> state \<Rightarrow> error + state" where
  "os_makedirs p st =
     (if p = [] then Inl FileNotFoundError
      else case mkdirs (resolve st p) (fs st) of
             Inl e \<Rightarrow> Inl e
           | Inr t \<Rightarrow> Inr (st\<lparr>fs := t\<rparr>))"

definition shutil_rmtree :: "string \<Rightarrow> state \<Rightarrow> error + state" where
  "shutil_rmtree p st =
     (if p = [] then Inl FileNotFoundError
      else case lookup (resolve st p) (fs st) of
             None \<Rightarrow> Inl (absent_error (resolve st p) (fs st))
           | Some (File d) \<Rightarrow> Inl NotADirectoryError
           | Some (Dir es) \<Rightarrow>
               (case alter (resolve st p) None (fs st) of
                  None \<Rightarrow> Inl PermissionError
                | Some t \<Rightarrow> Inr (st\<lparr>fs := t\<rparr>)))"

text \<open>
  \<open>shutil.copytree(src, dst)\<close> reads the source directory, refuses an existing
  destination, creates the destination with its parents and fills it.
\<close>

definition shutil_copytree :: "string \<Rightarrow> string \<Rightarrow> state \<Rightarrow> error + state" where
  "shutil_copytree src dst st =
     (if src = [] then Inl FileNotFoundError
      else case lookup (resolve st src) (fs st) of
             None \<Rightarrow> Inl (absent_error (resolve st src) (fs st))
           | Some (File d) \<Rightarrow> Inl NotADirectoryError
           | Some (Dir es) \<Rightarrow>
               (if dst = [] then Inl FileNotFoundError
                else if lookup (resolve st dst) (fs st) \<noteq> None then Inl FileExistsError
                else case mkdirs (resolve st dst) (fs st) of
                       Inl e \<Rightarrow> Inl e
                     | Inr t \<Rightarrow>
                         (case alter (resolve st dst) (Some (Dir es)) t of
                            None \<Rightarrow> Inl PermissionError
                          | Some t' \<Rightarrow> Inr (st\<lparr>fs := t'\<rparr>))))"

text \<open>\<open>open(p, "wb")\<close> followed by writing \<open>d\<close> and closing.\<close>

definition write_file :: "string \<Rightarrow> data \<Rightarrow> state \<Rightarrow> error + state" where
  "write_file p d st =
     (if p = [] then Inl FileNotFoundError
      else case lookup (resolve st p) (fs st) of
             Some (Dir es) \<Rightarrow> Inl IsADirectoryError
           | _ \<Rightarrow>
               (case alter (resolve st p) (Some (File d)) (fs st) of
                  None \<Rightarrow> Inl (absent_error (resolve st p) (fs st))
                | Some t \<Rightarrow> Inr (st\<lparr>fs := t\<rparr>)))"

text \<open>
  \<open>shutil.copy2(src, dst)\<close>: a destination that is a directory receives the file under
  the source's base name; copying a file onto itself raises \<open>SameFileError\<close>.
\<close>

definition shutil_copy2 :: "string \<Rightarrow> string \<Rightarrow> state \<Rightarrow> error + state" where
  "shutil_copy2 src dst st =
     (let dst' = (if os_path_isdir st dst then join dst (basename src) else dst)
      in if os_path_exists st src \<and> os_path_exists st dst' \<and> resolve st src = resolve st dst'
         then Inl SameFileError
         else if src = [] then Inl FileNotFoundError
         else case lookup (resolve st src) (fs st) of
                None \<Rightarrow> Inl (absent_error (resolve st src) (fs st))
              | Some (Dir es) \<Rightarrow> Inl IsADirectoryError
              | Some (File d) \<Rightarrow> write_file dst' d st)"

text \<open>
  \<open>plistlib.dump\<close> writes the values in order and raises \<open>OverflowError\<close> at an integer
  outside \<open>[-2^63, 2^64)\<close> and \<open>ValueError\<close> at a string with a control character.
  The dictionaries of this script list their keys in ascending order already, which is
  the order in which they are written.
\<close>

definition control_char :: "char \<Rightarrow> bool" where
  "control_char c =
     ((of_char c :: nat) < 32 \<and> c \<noteq> CHR 0x09 \<and> c \<noteq> CHR 0x0A \<and> c \<noteq> CHR 0x0D)"

definition str_error :: "string \<Rightarrow> error option" where
  "str_error s = (if list_ex control_char s then Some ValueError else None)"

fun first_error :: "error option list \<Rightarrow> error option" where
  "first_error [] = None"
| "first_error (None # es) = first_error es"
| "first_error (Some e # es) = Some e"

fun dump_error :: "plist \<Rightarrow> error option" where
  "dump_error (PInt n) =
     (if - (2 ^ 63) \<le> n \<and> n < 2 ^ 64 then None else Some OverflowError)"
| "dump_error (PBool b) = None"
| "dump_error (PStr s) = str_error s"
| "dump_error (PArray xs) = first_error (map dump_error xs)"
| "dump_error (PDict kvs) =
     first_error (concat (map (\<lambda>kv. [str_error (fst kv), dump_error (snd kv)]) kvs))"

text \<open>\<open>with open(p, "wb") as f: plistlib.dump(doc, f)\<close>.\<close>

definition write_plist :: "string \<Rightarrow> plist \<Rightarrow> state \<Rightarrow> error + state" where
  "write_plist p doc st =
     (case write_file p (Dumped doc) st of
        Inl e \<Rightarrow> Inl e
      | Inr st' \<Rightarrow> (case dump_error doc of Some e \<Rightarrow> Inl e | None \<Rightarrow> Inr st'))"

text \<open>\<open>str(n)\<close> for a length.\<close>

fun str_nat :: "nat \<Rightarrow> string" where
  "str_nat n =
     (if n < 10 then [''0123456789'' ! n]
      else str_nat (n div 10) @ [''0123456789'' ! (n mod 10)])"

declare str_nat.simps [simp del]

section \<open>The script\<close>

definition ROOT_PATH :: string where
  "ROOT_PATH = ''output''"

text \<open>\<open>os.path.expanduser\<close> replaces the leading \<open>~\<close> by the home directory without its
  trailing slashes.\<close>

definition LOGIC_PRO_PATH :: "state \<Rightarrow> string" where
  "LOGIC_PRO_PATH st =
     rev (dropWhile (\<lambda>c. c = CHR ''/'') (rev (home st)))
       @ ''/Music/Audio Music Apps/Articulation Settings''"

definition PATH_TO_ARTICULATION_MAPPING :: "(string \<times> articulation_mapping) list" where
  "PATH_TO_ARTICULATION_MAPPING =
     [(''Musio - CineStrings Solo/Violin I.plist'', fmap_of_list
         [(24, ''Legato - Performance''), (25, ''Legato - Bow Change''),
          (26, ''Legato - Espressivo''), (27, ''Sustain''),
          (28, ''Sustain - Espressivo''), (29, ''Sustain - Infinite Bow''),
          (30, ''Marcato''), (31, ''Staccato''), (32, ''Spiccato''),
          (33, ''Short Spiccato''), (34, ''Pizzicato''), (35, ''Tremolo'')]),
      (''Musio - CineStrings Solo/Violin II.plist'', fmap_of_list
         [(24, ''Legato - Performance''), (25, ''Legato - Bow change''),
          (26, ''Legato - Espressivo''), (27, ''Sustain''),
          (28, ''Sustain - Espressivo''), (29, ''Sustain - Infinite Bow''),
          (30, ''Marcato''), (31, ''Staccato''), (32, ''Spiccato''),
          (33, ''Short Spiccato''), (34, ''Pizzicato''), (35, ''Bartok Pizzicato''),
          (36, ''Tremolo'')]),
      (''Musio - CineStrings Solo/Viola.plist'', fmap_of_list
         [(24, ''Legato - Performance''), (25, ''Legato - Bow Change''),
          (26, ''Legato - Espressivo''), (27, ''Sustain''),
          (28, ''Sustain - Espressivo''), (29, ''Sustain - Infinite Bow''),
          (30, ''Marcato''), (31, ''Staccato''), (32, ''Spiccato''),
          (33, ''Short Spiccato''), (34, ''Pizzicato''), (35, ''Bartok Pizzicato''),
          (36, ''Tremolo'')]),
      (''Musio - CineStrings Solo/Cello.plist'', fmap_of_list
         [(24, ''Legato - Performance''), (25, ''Legato - Bow Change''),
          (26, ''Legato - Espressivo''), (27, ''Sustain''),
          (28, ''Sustain - Espressivo''), (29, ''Sustain - Infinite Bow''),
          (30, ''Marcato''), (31, ''Staccato''), (32, ''Spiccato''),
          (33, ''Pizzicato'')]),
      (''Musio - CineStrings Solo/Bass.plist'', fmap_of_list
         [(72, ''Legato - Performance''), (73, ''Legato - Bow Change''),
          (74, ''Legato - Espressivo''), (75, ''Sustain''),
          (76, ''Sustain - Espressivo''), (77, ''Sustain - Infinite Bow''),
          (78, ''Marcato''), (79, ''Staccato''), (80, ''Spiccato''),
          (81, ''Pizzicato''), (82, ''Bartok Pizzicato'')]),
      (''Spitfire - Chamber Strings Essentials.plist'', fmap_of_list
         [(0, ''Legato''), (1, ''Long''), (2, ''Spiccato''), (3, ''Staccato''),
          (4, ''Pizzicato''), (5, ''Long Harmonics''), (6, ''Tremolo''),
          (7, ''Trill Minor 2nd''), (8, ''Trill Major 2nd'')])]"

text \<open>
  \<open>generate_articulation_set\<close>: the document is built as in \<open>plist_data\<close>, the parent
  directory is created when the path names one, the file is written, three lines are
  printed and the path is returned.  The parameter \<open>name\<close> is part of the signature.
\<close>

definition generate_articulation_set ::
  "articulation_mapping \<Rightarrow> string \<Rightarrow> string \<Rightarrow> state \<Rightarrow> error + (string \<times> state)" where
  "generate_articulation_set articulation_mapping name output_path st =
     (case articulations_loop articulation_mapping (sorted_keys articulation_mapping) [] 1 of
        Inl e \<Rightarrow> Inl e
      | Inr articulations \<Rightarrow>
          (let filename = basename output_path;
               plist_data = PDict [(''Articulations'', PArray articulations),
                                   (''InputMidiChannel'', PInt (- 1)),
                                   (''MultipleOutputsActive'', PBool False),
                                   (''Name'', PStr filename),
                                   (''OctaveOffset'', PInt 0),
                                   (''Switches'', PArray []),
                                   (''SwitchingEnabled'', PBool False)];
               output_dir = dirname output_path
           in case (if output_dir \<noteq> [] then os_makedirs output_dir st else Inr st) of
                Inl e \<Rightarrow> Inl e
              | Inr st1 \<Rightarrow>
                  (case write_plist output_path plist_data st1 of
                     Inl e \<Rightarrow> Inl e
                   | Inr st2 \<Rightarrow>
                       Inr (output_path,
                            print (''  Articulations: '' @ str_nat (length articulations))
                              (print (''  Name: '' @ filename)
                                 (print (''Generated articulation set: '' @ output_path)
                                    st2))))))"

text \<open>The loop of \<open>copy_to_logic_pro\<close> over the listed items.\<close>

fun copy_items ::
  "string list \<Rightarrow> string list \<Rightarrow> state \<Rightarrow> error + (string list \<times> state)" where
  "copy_items [] copied_items st = Inr (copied_items, st)"
| "copy_items (item # rest) copied_items st =
     (let source_path = join ROOT_PATH item;
          dest_path = join (LOGIC_PRO_PATH st) item
      in if os_path_isdir st source_path then
           (case (if os_path_exists st dest_path then shutil_rmtree dest_path st
                  else Inr st) of
              Inl e \<Rightarrow> Inl e
            | Inr st1 \<Rightarrow>
                (case shutil_copytree source_path dest_path st1 of
                   Inl e \<Rightarrow> Inl e
                 | Inr st2 \<Rightarrow>
                     copy_items rest (copied_items @ [''Directory: '' @ item]) st2))
         else
           (case shutil_copy2 source_path dest_path st of
              Inl e \<Rightarrow> Inl e
            | Inr st1 \<Rightarrow> copy_items rest (copied_items @ [''File: '' @ item]) st1))"

definition copy_to_logic_pro :: "state \<Rightarrow> error + state" where
  "copy_to_logic_pro st =
     (if \<not> os_path_exists st ROOT_PATH then
        Inr (print_err (''Error: Output directory '' @ [CHR 0x27] @ ROOT_PATH @ [CHR 0x27]
                          @ '' does not exist'') st)
      else
        (case os_makedirs (LOGIC_PRO_PATH st) st of
           Inl e \<Rightarrow> Inl e
         | Inr st1 \<Rightarrow>
             (case os_listdir st1 ROOT_PATH of
                Inl e \<Rightarrow> Inl e
              | Inr items \<Rightarrow>
                  (case copy_items items [] st1 of
                     Inl e \<Rightarrow> Inl e
                   | Inr (copied_items, st2) \<Rightarrow>
                       (if copied_items \<noteq> [] then
                          Inr (fold (\<lambda>item. print (''  '' @ item)) copied_items
                                 (print ([CHR 0x0A] @ ''Copied to Logic Pro location (''
                                           @ LOGIC_PRO_PATH st @ ''):'') st2))
                        else
                          Inr (print (''No items found in '' @ [CHR 0x27] @ ROOT_PATH
                                        @ [CHR 0x27] @ '' to copy'') st2))))))"

text \<open>The loop of \<open>main\<close> over the sorted items of the table.\<close>

fun generate_all :: "(string \<times> articulation_mapping) list \<Rightarrow> state \<Rightarrow> error + state" where
  "generate_all [] st = Inr st"
| "generate_all ((path_key, articulation_mapping) # rest) st =
     (let output_path = join ROOT_PATH path_key;
          name = fst (splitext (basename path_key))
      in case generate_articulation_set articulation_mapping name output_path st of
           Inl e \<Rightarrow> Inl e
         | Inr (returned, st1) \<Rightarrow> generate_all rest st1)"

text \<open>
  \<open>main\<close>, with the parsed flag \<open>--copy-overwrite\<close> as its argument.  An exception that
  leaves \<open>main\<close> ends the process with status 1, a normal return with status 0.
\<close>

definition main :: "bool \<Rightarrow> state \<Rightarrow> error + state" where
  "main copy_overwrite st =
     (let st0 = print (''Generating '' @ str_nat (length PATH_TO_ARTICULATION_MAPPING)
                         @ '' articulation set(s)...'' @ [CHR 0x0A]) st
      in case (if os_path_exists st0 ROOT_PATH then shutil_rmtree ROOT_PATH st0
               else Inr st0) of
           Inl e \<Rightarrow> Inl e
         | Inr st1 \<Rightarrow>
             (case generate_all (sort_key fst PATH_TO_ARTICULATION_MAPPING) st1 of
                Inl e \<Rightarrow> Inl e
              | Inr st2 \<Rightarrow>
                  (if copy_overwrite then copy_to_logic_pro st2 else Inr st2)))"

definition exit_code :: "error + 'a \<Rightarrow> int" where
  "exit_code r = (case r of Inl e \<Rightarrow> 1 | Inr v \<Rightarrow> 0)"

section \<open>Auxiliary definitions for the properties\<close>

text \<open>The records that the loop appends for a list of keys, starting at counter \<open>a\<close>.\<close>

fun records_from :: "articulation_mapping \<Rightarrow> int \<Rightarrow> int list \<Rightarrow> plist list" where
  "records_from m a [] = []"
| "records_from m a (k # ks) =
     create_articulation_dict a (the (fmlookup m k)) k # records_from m (a + 1) ks"

text \<open>The list under \<open>"Articulations"\<close> of a document.\<close>

definition articulations_of :: "plist \<Rightarrow> plist list option" where
  "articulations_of doc =
     (case dict_get doc ''Articulations'' of Some (PArray xs) \<Rightarrow> Some xs | _ \<Rightarrow> None)"

text \<open>A regular file lies at the path or above it: \<open>os.makedirs\<close> cannot succeed there.\<close>

fun blocked :: "string list \<Rightarrow> node \<Rightarrow> bool" where
  "blocked [] (Dir es) = False"
| "blocked [] (File d) = True"
| "blocked (c # cs) (File d) = True"
| "blocked (c # cs) (Dir es) =
     (case map_of es c of None \<Rightarrow> False | Some m \<Rightarrow> blocked cs m)"

text \<open>What \<open>os.listdir\<close> can report: a name is not empty, has no slash and is neither
  \<open>.\<close> nor \<open>..\<close>.\<close>

definition valid_name :: "string \<Rightarrow> bool" where
  "valid_name n =
     (n \<noteq> [] \<and> CHR ''/'' \<notin> set n \<and> n \<noteq> ''.'' \<and> n \<noteq> ''..'')"

text \<open>
  A state for trying the installer: the output root holds the directory \<open>Lib\<close> and a
  file, and the destination root holds an older \<open>Lib\<close> with a file that the source
  does not have.  \<open>install_after\<close> is the tree that the installer leaves.
\<close>

definition install_before :: state where
  "install_before =
     \<lparr>fs = Dir [(''work'', Dir [(''output'',
                   Dir [(''Lib'', Dir [(''a.plist'', File (Raw ''new''))]),
                        (''x.plist'', File (Raw ''x''))])]),
                (''home'', Dir [(''me'', Dir [(''Music'', Dir [(''Audio Music Apps'',
                   Dir [(''Articulation Settings'',
                     Dir [(''Lib'', Dir [(''old.plist'', File (Raw ''old''))])])])])])])],
      cwd = [''work''], home = ''/home/me'', stdout = [], stderr = []\<rparr>"

definition install_after :: node where
  "install_after =
     Dir [(''work'', Dir [(''output'',
             Dir [(''Lib'', Dir [(''a.plist'', File (Raw ''new''))]),
                  (''x.plist'', File (Raw ''x''))])]),
          (''home'', Dir [(''me'', Dir [(''Music'', Dir [(''Audio Music Apps'',
             Dir [(''Articulation Settings'',
               Dir [(''Lib'', Dir [(''a.plist'', File (Raw ''new''))]),
                    (''x.plist'', File (Raw ''x''))])])])])])]"

section \<open>The loop over the sorted keys\<close>

lemma articulations_loop_records:
  "set ks \<subseteq> fset (fmdom m) \<Longrightarrow>
   articulations_loop m ks acc a = Inr (acc @ records_from m a ks)"
proof (induction ks arbitrary: acc a)
  case Nil
  then show ?case by simp
next
  case (Cons k ks)
  from Cons.prems obtain v where v: "fmlookup m k = Some v"
    by (auto simp: fmdom.rep_eq dom_def)
  from Cons.prems have "set ks \<subseteq> fset (fmdom m)" by simp
  from Cons.IH [OF this] v show ?case
    by simp
qed

lemma set_sorted_keys: "set (sorted_keys m) = fset (fmdom m)"
  by (simp add: sorted_keys_def)

lemma sorted_sorted_keys: "sorted (sorted_keys m)"
  by (simp add: sorted_keys_def sorted_list_of_fset.rep_eq)

lemma distinct_sorted_keys: "distinct (sorted_keys m)"
  by (simp add: sorted_keys_def sorted_list_of_fset.rep_eq)

lemma length_sorted_keys: "length (sorted_keys m) = fcard (fmdom m)"
  by (simp add: sorted_keys_def sorted_list_of_fset.rep_eq fcard.rep_eq)

lemma loop_on_sorted_keys:
  "articulations_loop m (sorted_keys m) [] 1 = Inr (records_from m 1 (sorted_keys m))"
  by (simp add: articulations_loop_records set_sorted_keys)

lemma plist_data_eq:
  "plist_data m p =
     Inr (PDict [(''Articulations'', PArray (records_from m 1 (sorted_keys m))),
                 (''InputMidiChannel'', PInt (- 1)),
                 (''MultipleOutputsActive'', PBool False),
                 (''Name'', PStr (basename p)),
                 (''OctaveOffset'', PInt 0),
                 (''Switches'', PArray []),
                 (''SwitchingEnabled'', PBool False)])"
  by (simp add: plist_data_def loop_on_sorted_keys)

lemma articulations_of_plist_data:
  "\<exists>doc. plist_data m p = Inr doc \<and>
         articulations_of doc = Some (records_from m 1 (sorted_keys m))"
  by (simp add: plist_data_eq articulations_of_def)

lemma length_records_from: "length (records_from m a ks) = length ks"
  by (induction ks arbitrary: a) simp_all

lemma output_note_records: "map output_note (records_from m a ks) = map Some ks"
  by (induction ks arbitrary: a)
     (simp_all add: output_note_def create_articulation_dict_def)

lemma upt_0_Suc_shift: "[0..<Suc n] = 0 # map Suc [0..<n]"
  by (simp only: upt_conv_Cons [OF zero_less_Suc] map_Suc_upt)

lemma upt_1_shift: "map (\<lambda>i. f (1 + int i)) [0..<n] = map (\<lambda>i. f (int i)) [1..<Suc n]"
proof -
  have "map (\<lambda>i. f (int i)) [1..<Suc n] = map (\<lambda>i. f (int i)) (map Suc [0..<n])"
    by (simp only: map_Suc_upt One_nat_def)
  then show ?thesis by (simp add: o_def add.commute)
qed

lemma ArticulationID_records:
  "map (int_field ''ArticulationID'') (records_from m a ks) =
     map (\<lambda>i. Some (a + int i)) [0..<length ks]"
proof (induction ks arbitrary: a)
  case Nil
  show ?case by simp
next
  case (Cons k ks)
  have "map (\<lambda>i. Some (a + int i)) [0..<length (k # ks)] =
        Some a # map (\<lambda>i. Some (a + 1 + int i)) [0..<length ks]"
    by (simp only: list.size upt_0_Suc_shift list.map map_map o_def add_Suc_right
          add_0_right One_nat_def)
       (simp add: algebra_simps)
  with Cons.IH [of "a + 1"] show ?case
    by (simp add: int_field_def create_articulation_dict_def)
qed

lemma ID_records:
  "map (int_field ''ID'') (records_from m a ks) =
     map (\<lambda>i. Some (1000 + (a + int i))) [0..<length ks]"
proof (induction ks arbitrary: a)
  case Nil
  show ?case by simp
next
  case (Cons k ks)
  have "map (\<lambda>i. Some (1000 + (a + int i))) [0..<length (k # ks)] =
        Some (1000 + a) # map (\<lambda>i. Some (1000 + (a + 1 + int i))) [0..<length ks]"
    by (simp only: list.size upt_0_Suc_shift list.map map_map o_def add_Suc_right
          add_0_right One_nat_def)
       (simp add: algebra_simps)
  with Cons.IH [of "a + 1"] show ?case
    by (simp add: int_field_def create_articulation_dict_def)
qed

lemma Name_records:
  "set ks \<subseteq> fset (fmdom m) \<Longrightarrow>
   map (str_field ''Name'') (records_from m a ks) = map (fmlookup m) ks"
  by (induction ks arbitrary: a)
     (auto simp: str_field_def create_articulation_dict_def fmdom.rep_eq dom_def)

section \<open>Properties of the built document\<close>

text \<open>
  C3. For every articulation mapping the document is built without error; its list of
  articulations has as many records as the mapping has keys, the output notes of the
  records are the keys of the mapping in ascending order without repetition, and the
  counter stored under \<open>"ArticulationID"\<close> runs through 1, 2, ..., up to the number of keys.
\<close>

theorem entries_sorted_and_dense:
  "\<exists>doc arts. plist_data m p = Inr doc \<and> articulations_of doc = Some arts \<and>
     length arts = fcard (fmdom m) \<and>
     map output_note arts = map Some (sorted_keys m) \<and>
     sorted (sorted_keys m) \<and> distinct (sorted_keys m) \<and>
     set (sorted_keys m) = fset (fmdom m) \<and>
     map (int_field ''ArticulationID'') arts =
       map (\<lambda>i. Some (int i)) [1..<Suc (fcard (fmdom m))]"
proof -
  obtain doc where doc: "plist_data m p = Inr doc"
    "articulations_of doc = Some (records_from m 1 (sorted_keys m))"
    using articulations_of_plist_data by blast
  have "map (int_field ''ArticulationID'') (records_from m 1 (sorted_keys m)) =
          map (\<lambda>i. Some (int i)) [1..<Suc (fcard (fmdom m))]"
    by (simp only: ArticulationID_records length_sorted_keys upt_1_shift)
  with doc show ?thesis
    by (simp add: length_records_from length_sorted_keys output_note_records
          sorted_sorted_keys distinct_sorted_keys set_sorted_keys)
qed

lemma list_all_records:
  "(\<And>a k. P (create_articulation_dict a (the (fmlookup m k)) k)) \<Longrightarrow>
   list_all P (records_from m a ks)"
  by (induction ks arbitrary: a) simp_all

text \<open>
  C1, as stated, fails: for the mapping \<open>{0: "Legato", 2: "Spiccato"}\<close> the first record
  carries 1 under \<open>"ArticulationID"\<close> and 1001 under \<open>"ID"\<close>.
\<close>

theorem ArticulationID_differs_from_ID_example:
  "plist_data (fmap_of_list [(0, ''Legato''), (2, ''Spiccato'')]) ''output/Test.plist'' =
     Inr (PDict [(''Articulations'', PArray
                    [PDict [(''ArticulationID'', PInt 1), (''ID'', PInt 1001),
                            (''Name'', PStr ''Legato''),
                            (''Output'', PArray [PDict [(''MB1'', PInt 0),
                                                        (''Status'', PStr ''Note On'')]])],
                     PDict [(''ArticulationID'', PInt 2), (''ID'', PInt 1002),
                            (''Name'', PStr ''Spiccato''),
                            (''Output'', PArray [PDict [(''MB1'', PInt 2),
                                                        (''Status'', PStr ''Note On'')]])]]),
                 (''InputMidiChannel'', PInt (- 1)),
                 (''MultipleOutputsActive'', PBool False),
                 (''Name'', PStr ''Test.plist''),
                 (''OctaveOffset'', PInt 0),
                 (''Switches'', PArray []),
                 (''SwitchingEnabled'', PBool False)])
   \<and> dict_get (create_articulation_dict 1 ''Legato'' 0) ''ArticulationID'' = Some (PInt 1)
   \<and> dict_get (create_articulation_dict 1 ''Legato'' 0) ''ID'' = Some (PInt 1001)
   \<and> dict_get (create_articulation_dict 1 ''Legato'' 0) ''ArticulationID''
       \<noteq> dict_get (create_articulation_dict 1 ''Legato'' 0) ''ID''"
  by code_simp

text \<open>
  C1, amended. In every record the value under \<open>"ArticulationID"\<close> is the counter and the
  value under \<open>"ID"\<close> is that counter plus 1000, so the two keys never carry the same
  integer; this holds for every record of every built document.
\<close>

theorem ID_is_ArticulationID_plus_1000:
  "dict_get (create_articulation_dict a n k) ''ArticulationID'' = Some (PInt a) \<and>
   dict_get (create_articulation_dict a n k) ''ID'' = Some (PInt (1000 + a)) \<and>
   (\<exists>doc arts. plist_data m p = Inr doc \<and> articulations_of doc = Some arts \<and>
      list_all (\<lambda>e. \<exists>s. dict_get e ''ArticulationID'' = Some (PInt s) \<and>
                         dict_get e ''ID'' = Some (PInt (1000 + s)) \<and>
                         dict_get e ''ArticulationID'' \<noteq> dict_get e ''ID'') arts)"
proof -
  have rec: "\<And>a n k. dict_get (create_articulation_dict a n k) ''ArticulationID'' = Some (PInt a) \<and>
      dict_get (create_articulation_dict a n k) ''ID'' = Some (PInt (1000 + a))"
    by (simp add: create_articulation_dict_def)
  obtain doc where doc: "plist_data m p = Inr doc"
    "articulations_of doc = Some (records_from m 1 (sorted_keys m))"
    using articulations_of_plist_data by blast
  have "list_all (\<lambda>e. \<exists>s. dict_get e ''ArticulationID'' = Some (PInt s) \<and>
                         dict_get e ''ID'' = Some (PInt (1000 + s)) \<and>
                         dict_get e ''ArticulationID'' \<noteq> dict_get e ''ID'')
          (records_from m 1 (sorted_keys m))"
    by (rule list_all_records) (simp add: create_articulation_dict_def)
  with doc rec show ?thesis by blast
qed

text \<open>
  C4. In every built document the i-th record (counting from 1) carries the sequence
  number i under \<open>"ArticulationID"\<close> and i + 1000 under \<open>"ID"\<close>; its output note is the
  i-th smallest key of the mapping, unchanged, and its name is the mapping's value at
  that key.
\<close>

theorem displayId_and_outputNote:
  "\<exists>doc arts. plist_data m p = Inr doc \<and> articulations_of doc = Some arts \<and>
     map (int_field ''ArticulationID'') arts =
       map (\<lambda>i. Some (int i)) [1..<Suc (length arts)] \<and>
     map (int_field ''ID'') arts =
       map (\<lambda>i. Some (int i + 1000)) [1..<Suc (length arts)] \<and>
     map output_note arts = map Some (sorted_keys m) \<and>
     map (str_field ''Name'') arts = map (fmlookup m) (sorted_keys m)"
proof -
  obtain doc where doc: "plist_data m p = Inr doc"
    "articulations_of doc = Some (records_from m 1 (sorted_keys m))"
    using articulations_of_plist_data by blast
  let ?arts = "records_from m 1 (sorted_keys m)"
  have len: "length (sorted_keys m) = length ?arts"
    by (simp add: length_records_from)
  have a: "map (int_field ''ArticulationID'') ?arts =
          map (\<lambda>i. Some (int i)) [1..<Suc (length ?arts)]"
    by (simp only: ArticulationID_records len upt_1_shift)
  have "map (int_field ''ID'') ?arts =
          map (\<lambda>i. Some (1000 + (1 + int i))) [0..<length ?arts]"
    by (simp only: ID_records len)
  also have "\<dots> = map (\<lambda>i. Some (1000 + int i)) [1..<Suc (length ?arts)]"
    by (rule upt_1_shift [where f = "\<lambda>x. Some (1000 + x)"])
  finally have b: "map (int_field ''ID'') ?arts =
          map (\<lambda>i. Some (int i + 1000)) [1..<Suc (length ?arts)]"
    by (simp add: add.commute)
  have c: "map (str_field ''Name'') ?arts = map (fmlookup m) (sorted_keys m)"
    by (rule Name_records) (simp add: set_sorted_keys)
  from doc a b c show ?thesis
    by (simp add: output_note_records)
qed

lemma Output_records:
  "map (\<lambda>e. dict_get e ''Output'') (records_from m a ks) =
     map (\<lambda>k. Some (PArray [PDict [(''MB1'', PInt k), (''Status'', PStr ''Note On'')]])) ks"
  by (induction ks arbitrary: a) (simp_all add: create_articulation_dict_def)

text \<open>
  C5. The \<open>"Output"\<close> field of a record is a list of exactly one dictionary
  \<open>{"MB1": note, "Status": "Note On"}\<close>, for every integer note whatsoever; in a built
  document the notes are the keys of the mapping.
\<close>

theorem Output_single_note_on:
  "dict_get (create_articulation_dict a n k) ''Output'' =
     Some (PArray [PDict [(''MB1'', PInt k), (''Status'', PStr ''Note On'')]]) \<and>
   (\<exists>doc arts. plist_data m p = Inr doc \<and> articulations_of doc = Some arts \<and>
      map (\<lambda>e. dict_get e ''Output'') arts =
        map (\<lambda>k. Some (PArray [PDict [(''MB1'', PInt k), (''Status'', PStr ''Note On'')]]))
          (sorted_keys m))"
proof -
  obtain doc where doc: "plist_data m p = Inr doc"
    "articulations_of doc = Some (records_from m 1 (sorted_keys m))"
    using articulations_of_plist_data by blast
  then show ?thesis
    by (simp add: Output_records) (simp add: create_articulation_dict_def)
qed

lemma sorted_keys_empty: "sorted_keys fmempty = []"
  by (simp add: sorted_keys_def sorted_list_of_fset.rep_eq)

text \<open>
  C6. The empty mapping yields, without error, the document with an empty list of
  articulations and all fixed top-level fields.
\<close>

theorem empty_mapping_document:
  "plist_data fmempty p =
     Inr (PDict [(''Articulations'', PArray []),
                 (''InputMidiChannel'', PInt (- 1)),
                 (''MultipleOutputsActive'', PBool False),
                 (''Name'', PStr (basename p)),
                 (''OctaveOffset'', PInt 0),
                 (''Switches'', PArray []),
                 (''SwitchingEnabled'', PBool False)])"
  by (simp add: plist_data_def sorted_keys_empty)


section \<open>Lookups after a change of the tree\<close>

lemma lookup_append:
  "lookup (p @ q) t = (case lookup p t of None \<Rightarrow> None | Some n \<Rightarrow> lookup q n)"
  by (induction p t rule: lookup.induct) (simp_all split: option.splits)

lemma alter_lookup_same: "alter p v t = Some t' \<Longrightarrow> lookup p t' = v"
  by (induction p v t arbitrary: t' rule: alter.induct)
     (auto simp: update_conv' delete_conv' split: option.splits)

lemma alter_lookup_other:
  "alter p v t = Some t' \<Longrightarrow> \<not> prefix p q \<Longrightarrow> \<not> prefix q p \<Longrightarrow> lookup q t' = lookup q t"
proof (induction p v t arbitrary: t' q rule: alter.induct)
  case (3 c v es)
  then show ?case
    by (cases q) (auto simp: update_conv' delete_conv' split: option.splits)
next
  case (4 c c' cs v es)
  then show ?case
    by (cases q) (auto simp: update_conv' split: option.splits)
qed simp_all

lemma alter_lookup_above:
  "alter p v t = Some t' \<Longrightarrow> strict_prefix q p \<Longrightarrow> \<exists>es. lookup q t' = Some (Dir es)"
proof (induction p v t arbitrary: t' q rule: alter.induct)
  case (3 c v es)
  then show ?case by (cases q) auto
next
  case (4 c c' cs v es)
  then show ?case
    by (cases q) (auto simp: update_conv' split: option.splits)
qed simp_all

lemma alter_succeeds:
  "lookup p t = Some (Dir es) \<Longrightarrow> \<exists>t'. alter (p @ [c]) v t = Some t'"
proof (induction p arbitrary: t es)
  case Nil
  then show ?case by simp
next
  case (Cons a p)
  from Cons.prems obtain fs m where t: "t = Dir fs" and m: "map_of fs a = Some m"
    and l: "lookup p m = Some (Dir es)"
    by (cases t) (auto split: option.splits)
  from Cons.IH [OF l] obtain m' where "alter (p @ [c]) v m = Some m'" by blast
  with t m show ?case by (cases p) simp_all
qed

lemma lookup_Dir_Nil: "q \<noteq> [] \<Longrightarrow> lookup q (Dir []) = None"
  by (cases q) simp_all

lemma mkdirs_existing: "lookup p t = Some (Dir es) \<Longrightarrow> mkdirs p t = Inr t"
proof (induction p t rule: mkdirs.induct)
  case (4 c cs es')
  then show ?case
    by (auto split: option.splits simp: update_triv)
qed simp_all

lemma mkdirs_keeps:
  "mkdirs p t = Inr t' \<Longrightarrow> lookup q t = Some n \<Longrightarrow> \<not> strict_prefix q p \<Longrightarrow>
   lookup q t' = Some n"
proof (induction p t arbitrary: t' q rule: mkdirs.induct)
  case (4 c cs es)
  then show ?case
    by (cases q) (auto simp: update_conv' split: option.splits sum.splits)
qed auto

lemma mkdirs_lookup_other:
  "mkdirs p t = Inr t' \<Longrightarrow> \<not> prefix p q \<Longrightarrow> \<not> prefix q p \<Longrightarrow> lookup q t' = lookup q t"
proof (induction p t arbitrary: t' q rule: mkdirs.induct)
  case (4 c cs es)
  show ?case
  proof (cases q)
    case Nil
    with 4 show ?thesis by simp
  next
    case (Cons d ds)
    show ?thesis
    proof (cases "d = c")
      case False
      with 4 Cons show ?thesis
        by (auto simp: update_conv' split: option.splits sum.splits)
    next
      case True
      with 4 Cons have ds: "\<not> prefix cs ds" "\<not> prefix ds cs" by simp_all
      then have "ds \<noteq> []" by auto
      with 4 Cons True ds show ?thesis
        by (auto simp: update_conv' lookup_Dir_Nil split: option.splits sum.splits)
    qed
  qed
qed auto

lemma mkdirs_isdir:
  "mkdirs p t = Inr t' \<Longrightarrow> prefix q p \<Longrightarrow> \<exists>es. lookup q t' = Some (Dir es)"
proof (induction p t arbitrary: t' q rule: mkdirs.induct)
  case (4 c cs es)
  then show ?case
    by (cases q) (auto simp: update_conv' split: option.splits sum.splits)
qed auto

lemma not_blocked_Dir_Nil: "\<not> blocked p (Dir [])"
  by (cases p) simp_all

lemma mkdirs_blocked: "(\<exists>t'. mkdirs p t = Inr t') \<longleftrightarrow> \<not> blocked p t"
proof (induction p t rule: mkdirs.induct)
  case (4 c cs es)
  then show ?case
    by (cases "map_of es c") (auto simp: not_blocked_Dir_Nil split: sum.splits)
qed auto


section \<open>Resolving joined paths\<close>

lemma split_sep_nonempty: "split_sep p \<noteq> []"
  by (induction p) (auto split: list.splits)

lemma split_sep_slash: "split_sep (a @ CHR ''/'' # b) = split_sep a @ split_sep b"
proof (induction a)
  case Nil
  show ?case by simp
next
  case (Cons c a)
  then show ?case
    using split_sep_nonempty [of a] by (cases "split_sep a") auto
qed

lemma split_sep_name: "CHR ''/'' \<notin> set n \<Longrightarrow> split_sep n = [n]"
  by (induction n) auto

lemma components_name: "valid_name n \<Longrightarrow> components n = [n]"
  by (simp add: components_def valid_name_def split_sep_name)

lemma components_slash: "components (a @ CHR ''/'' # b) = components a @ components b"
  by (simp add: components_def split_sep_slash)

lemma components_ends_slash:
  assumes "a \<noteq> []" "last a = CHR ''/''"
  shows "components (a @ b) = components a @ components b"
proof -
  from assms obtain a' where a: "a = a' @ [CHR ''/'']"
    by (metis append_butlast_last_id)
  have "components a = components a'"
    using components_slash [of a' "[]"] by (simp add: a components_def)
  then show ?thesis
    using components_slash [of a' b] by (simp add: a)
qed

lemma valid_name_hd: "valid_name n \<Longrightarrow> \<not> (n \<noteq> [] \<and> hd n = CHR ''/'')"
  by (cases n) (auto simp: valid_name_def)

lemma join_valid_nonempty: "valid_name n \<Longrightarrow> join a n \<noteq> []"
  by (auto simp: join_def valid_name_def)

lemma resolve_join:
  assumes "valid_name n" "a \<noteq> []"
  shows "resolve st (join a n) = resolve st a @ [n]"
proof -
  have hd: "hd (a @ x) = hd a" for x using assms(2) by simp
  show ?thesis
    using assms valid_name_hd [OF assms(1)]
    by (auto simp: join_def resolve_def components_slash components_ends_slash
        components_name hd)
qed

lemma basename_slash: "CHR ''/'' \<notin> set n \<Longrightarrow> basename (x @ CHR ''/'' # n) = n"
proof -
  assume n: "CHR ''/'' \<notin> set n"
  then have "takeWhile (\<lambda>c. c \<noteq> CHR ''/'') (rev n @ CHR ''/'' # rev x) = rev n"
    by (subst takeWhile_append2) auto
  then show ?thesis by (simp add: basename_def)
qed

lemma join_slash:
  assumes "valid_name n" "a \<noteq> []"
  shows "\<exists>x. join a n = x @ CHR ''/'' # n"
proof (cases "last a = CHR ''/''")
  case True
  with assms(2) have "a = butlast a @ [CHR ''/'']"
    by (metis append_butlast_last_id)
  then have "a @ n = butlast a @ CHR ''/'' # n"
    by (metis append.assoc append_Cons append_Nil)
  with True assms valid_name_hd [OF assms(1)] show ?thesis
    by (auto simp: join_def)
next
  case False
  with assms valid_name_hd [OF assms(1)] show ?thesis
    by (auto simp: join_def)
qed

lemma basename_join: "valid_name n \<Longrightarrow> a \<noteq> [] \<Longrightarrow> basename (join a n) = n"
  using join_slash [of n a] basename_slash [of n] by (auto simp: valid_name_def)

lemma ROOT_PATH_nonempty: "ROOT_PATH \<noteq> []"
  by (simp add: ROOT_PATH_def)

lemma LOGIC_PRO_PATH_nonempty: "LOGIC_PRO_PATH st \<noteq> []"
  by (simp add: LOGIC_PRO_PATH_def)


section \<open>Properties of the generation and of the installer\<close>

text \<open>
  C7. When the output root does not exist, \<open>copy_to_logic_pro\<close> returns normally: it
  appends the diagnostic to the error stream and leaves the file system and the
  standard output as they were, so nothing is created or copied.  \<open>main\<close> ends with this
  call, so the run ends with status 0.
\<close>

theorem missing_output_root_reported:
  "\<not> os_path_exists st ROOT_PATH \<Longrightarrow>
   copy_to_logic_pro st =
     Inr (st\<lparr>stderr := stderr st @
            [''Error: Output directory '' @ [CHR 0x27] @ ''output'' @ [CHR 0x27]
               @ '' does not exist'']\<rparr>) \<and>
   exit_code (copy_to_logic_pro st) = 0"
  by (simp add: copy_to_logic_pro_def print_err_def exit_code_def ROOT_PATH_def)

text \<open>The same at a concrete state whose working directory has no \<open>output\<close>.\<close>

theorem missing_output_root_reported_witness:
  "\<not> os_path_exists
       \<lparr>fs = Dir [(''work'', Dir [])], cwd = [''work''], home = ''/home/me'',
        stdout = [], stderr = []\<rparr> ROOT_PATH \<and>
   copy_to_logic_pro
       \<lparr>fs = Dir [(''work'', Dir [])], cwd = [''work''], home = ''/home/me'',
        stdout = [], stderr = []\<rparr> =
     Inr \<lparr>fs = Dir [(''work'', Dir [])], cwd = [''work''], home = ''/home/me'',
          stdout = [],
          stderr = [''Error: Output directory '' @ [CHR 0x27] @ ''output'' @ [CHR 0x27]
                      @ '' does not exist'']\<rparr> \<and>
   exit_code (copy_to_logic_pro
       \<lparr>fs = Dir [(''work'', Dir [])], cwd = [''work''], home = ''/home/me'',
        stdout = [], stderr = []\<rparr>) = 0"
proof -
  have h: "\<not> os_path_exists
       \<lparr>fs = Dir [(''work'', Dir [])], cwd = [''work''], home = ''/home/me'',
        stdout = [], stderr = []\<rparr> ROOT_PATH"
    by code_simp
  from missing_output_root_reported [OF h] h show ?thesis by (simp add: exit_code_def)
qed

text \<open>
  C9. The argument \<open>name\<close> has no influence: for the same mapping, output path and state,
  any two names give the same result, that is the same returned path, the same file
  system (hence the same bytes written) and the same printed lines.
\<close>

theorem name_argument_ignored:
  "generate_articulation_set articulation_mapping name1 output_path st =
   generate_articulation_set articulation_mapping name2 output_path st"
  by (simp add: generate_articulation_set_def)

text \<open>
  C2. The run of \<open>generate_articulation_set\<close> for the mapping
  \<open>{0: "Legato", 2: "Spiccato"}\<close>, the name \<open>"Test"\<close> and the path \<open>"output/Test.plist"\<close>:
  the document written has \<open>"Test.plist"\<close> under \<open>"Name"\<close>, with the extension, while the
  name that \<open>main\<close> derives for this file is \<open>"Test"\<close>.
\<close>

theorem Name_keeps_extension_example:
  "generate_articulation_set (fmap_of_list [(0, ''Legato''), (2, ''Spiccato'')])
       ''Test'' ''output/Test.plist''
       \<lparr>fs = Dir [(''work'', Dir [])], cwd = [''work''], home = ''/home/me'',
        stdout = [], stderr = []\<rparr> =
     Inr (''output/Test.plist'',
       \<lparr>fs = Dir [(''work'', Dir [(''output'', Dir [(''Test.plist'', File (Dumped
           (PDict [(''Articulations'', PArray
                      [PDict [(''ArticulationID'', PInt 1), (''ID'', PInt 1001),
                              (''Name'', PStr ''Legato''),
                              (''Output'', PArray [PDict [(''MB1'', PInt 0),
                                                          (''Status'', PStr ''Note On'')]])],
                       PDict [(''ArticulationID'', PInt 2), (''ID'', PInt 1002),
                              (''Name'', PStr ''Spiccato''),
                              (''Output'', PArray [PDict [(''MB1'', PInt 2),
                                                          (''Status'', PStr ''Note On'')]])]]),
                   (''InputMidiChannel'', PInt (- 1)),
                   (''MultipleOutputsActive'', PBool False),
                   (''Name'', PStr ''Test.plist''),
                   (''OctaveOffset'', PInt 0),
                   (''Switches'', PArray []),
                   (''SwitchingEnabled'', PBool False)])))])])],
        cwd = [''work''], home = ''/home/me'',
        stdout = [''Generated articulation set: output/Test.plist'',
                  ''  Name: Test.plist'', ''  Articulations: 2''],
        stderr = []\<rparr>) \<and>
   fst (splitext (basename ''Test.plist'')) = ''Test''"
  by code_simp


lemma resolve_fs_update [simp]: "resolve (st\<lparr>fs := t\<rparr>) p = resolve st p"
  by (simp add: resolve_def)

lemma LOGIC_PRO_PATH_fs_update [simp]: "LOGIC_PRO_PATH (st\<lparr>fs := t\<rparr>) = LOGIC_PRO_PATH st"
  by (simp add: LOGIC_PRO_PATH_def)

text \<open>
  C10. When the output root is an empty directory, the destination path is not barred by
  a regular file and does not lie inside the output root, \<open>copy_to_logic_pro\<close> returns
  normally: the destination root is created by \<open>os.makedirs\<close> (the tree stays as it is
  when the destination is a directory already), every node that exists and is not a
  proper ancestor of the destination is kept, nothing is copied, and the only line
  printed says that no items were found.
\<close>

theorem empty_output_root:
  assumes "lookup (resolve st ROOT_PATH) (fs st) = Some (Dir [])"
    and "\<not> blocked (resolve st (LOGIC_PRO_PATH st)) (fs st)"
    and "\<not> strict_prefix (resolve st ROOT_PATH) (resolve st (LOGIC_PRO_PATH st))"
  shows "\<exists>t. mkdirs (resolve st (LOGIC_PRO_PATH st)) (fs st) = Inr t \<and>
     copy_to_logic_pro st =
       Inr (st\<lparr>fs := t,
               stdout := stdout st @
                 [''No items found in '' @ [CHR 0x27] @ ''output'' @ [CHR 0x27]
                    @ '' to copy'']\<rparr>) \<and>
     (\<exists>es. lookup (resolve st (LOGIC_PRO_PATH st)) t = Some (Dir es)) \<and>
     (\<forall>q n. lookup q (fs st) = Some n \<and>
            \<not> strict_prefix q (resolve st (LOGIC_PRO_PATH st)) \<longrightarrow> lookup q t = Some n) \<and>
     (\<forall>es. lookup (resolve st (LOGIC_PRO_PATH st)) (fs st) = Some (Dir es) \<longrightarrow> t = fs st)"
proof -
  let ?L = "resolve st (LOGIC_PRO_PATH st)"
  let ?R = "resolve st ROOT_PATH"
  from assms(2) obtain t where t: "mkdirs ?L (fs st) = Inr t"
    using mkdirs_blocked by blast
  have ex: "os_path_exists st ROOT_PATH"
    using assms(1) by (simp add: os_path_exists_def ROOT_PATH_nonempty)
  have mk: "os_makedirs (LOGIC_PRO_PATH st) st = Inr (st\<lparr>fs := t\<rparr>)"
    using t by (simp add: os_makedirs_def LOGIC_PRO_PATH_nonempty)
  have "lookup ?R t = Some (Dir [])"
    using mkdirs_keeps [OF t assms(1) assms(3)] .
  then have ls: "os_listdir (st\<lparr>fs := t\<rparr>) ROOT_PATH = Inr []"
    by (simp add: os_listdir_def ROOT_PATH_nonempty)
  have run: "copy_to_logic_pro st =
       Inr (st\<lparr>fs := t,
               stdout := stdout st @
                 [''No items found in '' @ [CHR 0x27] @ ''output'' @ [CHR 0x27]
                    @ '' to copy'']\<rparr>)"
    using ex mk ls by (simp add: copy_to_logic_pro_def print_def ROOT_PATH_def)
  have dir: "\<exists>es. lookup ?L t = Some (Dir es)"
    using mkdirs_isdir [OF t] by blast
  have keep: "\<forall>q n. lookup q (fs st) = Some n \<and> \<not> strict_prefix q ?L \<longrightarrow> lookup q t = Some n"
    using mkdirs_keeps [OF t] by blast
  have same: "\<forall>es. lookup ?L (fs st) = Some (Dir es) \<longrightarrow> t = fs st"
    using mkdirs_existing t by fastforce
  from t run dir keep same show ?thesis by blast
qed

text \<open>The same at a concrete state, where the destination root is absent and is created.\<close>

theorem empty_output_root_witness:
  "lookup (resolve \<lparr>fs = Dir [(''work'', Dir [(''output'', Dir [])]),
                (''home'', Dir [(''me'', Dir [(''notes.txt'', File (Raw ''x''))])])],
        cwd = [''work''], home = ''/home/me'', stdout = [], stderr = []\<rparr> ROOT_PATH) (fs \<lparr>fs = Dir [(''work'', Dir [(''output'', Dir [])]),
                (''home'', Dir [(''me'', Dir [(''notes.txt'', File (Raw ''x''))])])],
        cwd = [''work''], home = ''/home/me'', stdout = [], stderr = []\<rparr>) = Some (Dir []) \<and>
   \<not> blocked (resolve \<lparr>fs = Dir [(''work'', Dir [(''output'', Dir [])]),
                (''home'', Dir [(''me'', Dir [(''notes.txt'', File (Raw ''x''))])])],
        cwd = [''work''], home = ''/home/me'', stdout = [], stderr = []\<rparr> (LOGIC_PRO_PATH \<lparr>fs = Dir [(''work'', Dir [(''output'', Dir [])]),
                (''home'', Dir [(''me'', Dir [(''notes.txt'', File (Raw ''x''))])])],
        cwd = [''work''], home = ''/home/me'', stdout = [], stderr = []\<rparr>)) (fs \<lparr>fs = Dir [(''work'', Dir [(''output'', Dir [])]),
                (''home'', Dir [(''me'', Dir [(''notes.txt'', File (Raw ''x''))])])],
        cwd = [''work''], home = ''/home/me'', stdout = [], stderr = []\<rparr>) \<and>
   \<not> strict_prefix (resolve \<lparr>fs = Dir [(''work'', Dir [(''output'', Dir [])]),
                (''home'', Dir [(''me'', Dir [(''notes.txt'', File (Raw ''x''))])])],
        cwd = [''work''], home = ''/home/me'', stdout = [], stderr = []\<rparr> ROOT_PATH) (resolve \<lparr>fs = Dir [(''work'', Dir [(''output'', Dir [])]),
                (''home'', Dir [(''me'', Dir [(''notes.txt'', File (Raw ''x''))])])],
        cwd = [''work''], home = ''/home/me'', stdout = [], stderr = []\<rparr> (LOGIC_PRO_PATH \<lparr>fs = Dir [(''work'', Dir [(''output'', Dir [])]),
                (''home'', Dir [(''me'', Dir [(''notes.txt'', File (Raw ''x''))])])],
        cwd = [''work''], home = ''/home/me'', stdout = [], stderr = []\<rparr>)) \<and>
   lookup (resolve \<lparr>fs = Dir [(''work'', Dir [(''output'', Dir [])]),
                (''home'', Dir [(''me'', Dir [(''notes.txt'', File (Raw ''x''))])])],
        cwd = [''work''], home = ''/home/me'', stdout = [], stderr = []\<rparr> (LOGIC_PRO_PATH \<lparr>fs = Dir [(''work'', Dir [(''output'', Dir [])]),
                (''home'', Dir [(''me'', Dir [(''notes.txt'', File (Raw ''x''))])])],
        cwd = [''work''], home = ''/home/me'', stdout = [], stderr = []\<rparr>)) (fs \<lparr>fs = Dir [(''work'', Dir [(''output'', Dir [])]),
                (''home'', Dir [(''me'', Dir [(''notes.txt'', File (Raw ''x''))])])],
        cwd = [''work''], home = ''/home/me'', stdout = [], stderr = []\<rparr>) = None \<and>
   copy_to_logic_pro \<lparr>fs = Dir [(''work'', Dir [(''output'', Dir [])]),
                (''home'', Dir [(''me'', Dir [(''notes.txt'', File (Raw ''x''))])])],
        cwd = [''work''], home = ''/home/me'', stdout = [], stderr = []\<rparr> =
     Inr \<lparr>fs = Dir [(''work'', Dir [(''output'', Dir [])]),
                (''home'', Dir [(''me'', Dir [(''notes.txt'', File (Raw ''x'')),
                   (''Music'', Dir [(''Audio Music Apps'',
                      Dir [(''Articulation Settings'', Dir [])])])])])],
          cwd = [''work''], home = ''/home/me'',
          stdout = [''No items found in '' @ [CHR 0x27] @ ''output'' @ [CHR 0x27]
                      @ '' to copy''],
          stderr = []\<rparr>"
proof -
  have h1: "lookup (resolve \<lparr>fs = Dir [(''work'', Dir [(''output'', Dir [])]),
                (''home'', Dir [(''me'', Dir [(''notes.txt'', File (Raw ''x''))])])],
        cwd = [''work''], home = ''/home/me'', stdout = [], stderr = []\<rparr> ROOT_PATH) (fs \<lparr>fs = Dir [(''work'', Dir [(''output'', Dir [])]),
                (''home'', Dir [(''me'', Dir [(''notes.txt'', File (Raw ''x''))])])],
        cwd = [''work''], home = ''/home/me'', stdout = [], stderr = []\<rparr>) = Some (Dir [])"
    by code_simp
  have h2: "\<not> blocked (resolve \<lparr>fs = Dir [(''work'', Dir [(''output'', Dir [])]),
                (''home'', Dir [(''me'', Dir [(''notes.txt'', File (Raw ''x''))])])],
        cwd = [''work''], home = ''/home/me'', stdout = [], stderr = []\<rparr> (LOGIC_PRO_PATH \<lparr>fs = Dir [(''work'', Dir [(''output'', Dir [])]),
                (''home'', Dir [(''me'', Dir [(''notes.txt'', File (Raw ''x''))])])],
        cwd = [''work''], home = ''/home/me'', stdout = [], stderr = []\<rparr>)) (fs \<lparr>fs = Dir [(''work'', Dir [(''output'', Dir [])]),
                (''home'', Dir [(''me'', Dir [(''notes.txt'', File (Raw ''x''))])])],
        cwd = [''work''], home = ''/home/me'', stdout = [], stderr = []\<rparr>)"
    by code_simp
  have h3: "\<not> strict_prefix (resolve \<lparr>fs = Dir [(''work'', Dir [(''output'', Dir [])]),
                (''home'', Dir [(''me'', Dir [(''notes.txt'', File (Raw ''x''))])])],
        cwd = [''work''], home = ''/home/me'', stdout = [], stderr = []\<rparr> ROOT_PATH) (resolve \<lparr>fs = Dir [(''work'', Dir [(''output'', Dir [])]),
                (''home'', Dir [(''me'', Dir [(''notes.txt'', File (Raw ''x''))])])],
        cwd = [''work''], home = ''/home/me'', stdout = [], stderr = []\<rparr> (LOGIC_PRO_PATH \<lparr>fs = Dir [(''work'', Dir [(''output'', Dir [])]),
                (''home'', Dir [(''me'', Dir [(''notes.txt'', File (Raw ''x''))])])],
        cwd = [''work''], home = ''/home/me'', stdout = [], stderr = []\<rparr>))"
    by code_simp
  have h4: "lookup (resolve \<lparr>fs = Dir [(''work'', Dir [(''output'', Dir [])]),
                (''home'', Dir [(''me'', Dir [(''notes.txt'', File (Raw ''x''))])])],
        cwd = [''work''], home = ''/home/me'', stdout = [], stderr = []\<rparr> (LOGIC_PRO_PATH \<lparr>fs = Dir [(''work'', Dir [(''output'', Dir [])]),
                (''home'', Dir [(''me'', Dir [(''notes.txt'', File (Raw ''x''))])])],
        cwd = [''work''], home = ''/home/me'', stdout = [], stderr = []\<rparr>)) (fs \<lparr>fs = Dir [(''work'', Dir [(''output'', Dir [])]),
                (''home'', Dir [(''me'', Dir [(''notes.txt'', File (Raw ''x''))])])],
        cwd = [''work''], home = ''/home/me'', stdout = [], stderr = []\<rparr>) = None"
    by code_simp
  have m: "mkdirs (resolve \<lparr>fs = Dir [(''work'', Dir [(''output'', Dir [])]),
                (''home'', Dir [(''me'', Dir [(''notes.txt'', File (Raw ''x''))])])],
        cwd = [''work''], home = ''/home/me'', stdout = [], stderr = []\<rparr> (LOGIC_PRO_PATH \<lparr>fs = Dir [(''work'', Dir [(''output'', Dir [])]),
                (''home'', Dir [(''me'', Dir [(''notes.txt'', File (Raw ''x''))])])],
        cwd = [''work''], home = ''/home/me'', stdout = [], stderr = []\<rparr>)) (fs \<lparr>fs = Dir [(''work'', Dir [(''output'', Dir [])]),
                (''home'', Dir [(''me'', Dir [(''notes.txt'', File (Raw ''x''))])])],
        cwd = [''work''], home = ''/home/me'', stdout = [], stderr = []\<rparr>) = Inr (Dir [(''work'', Dir [(''output'', Dir [])]),
                (''home'', Dir [(''me'', Dir [(''notes.txt'', File (Raw ''x'')),
                   (''Music'', Dir [(''Audio Music Apps'',
                      Dir [(''Articulation Settings'', Dir [])])])])])])"
    by code_simp
  from empty_output_root [OF h1 h2 h3] m
  have "copy_to_logic_pro \<lparr>fs = Dir [(''work'', Dir [(''output'', Dir [])]),
                (''home'', Dir [(''me'', Dir [(''notes.txt'', File (Raw ''x''))])])],
        cwd = [''work''], home = ''/home/me'', stdout = [], stderr = []\<rparr> =
     Inr \<lparr>fs = Dir [(''work'', Dir [(''output'', Dir [])]),
                (''home'', Dir [(''me'', Dir [(''notes.txt'', File (Raw ''x'')),
                   (''Music'', Dir [(''Audio Music Apps'',
                      Dir [(''Articulation Settings'', Dir [])])])])])],
          cwd = [''work''], home = ''/home/me'',
          stdout = [''No items found in '' @ [CHR 0x27] @ ''output'' @ [CHR 0x27]
                      @ '' to copy''],
          stderr = []\<rparr>"
    by auto
  with h1 h2 h3 h4 show ?thesis by blast
qed


section \<open>The copy loop of the installer\<close>

lemma shutil_rmtree_effect:
  "shutil_rmtree p st = Inr st' \<Longrightarrow>
   \<exists>t. alter (resolve st p) None (fs st) = Some t \<and> st' = st\<lparr>fs := t\<rparr>"
  by (auto simp: shutil_rmtree_def split: if_splits option.splits node.splits)

lemma shutil_copytree_effect:
  "shutil_copytree src dst st = Inr st' \<Longrightarrow>
   \<exists>es t t'. lookup (resolve st src) (fs st) = Some (Dir es) \<and>
     mkdirs (resolve st dst) (fs st) = Inr t \<and>
     alter (resolve st dst) (Some (Dir es)) t = Some t' \<and> st' = st\<lparr>fs := t'\<rparr>"
  by (auto simp: shutil_copytree_def split: if_splits option.splits node.splits sum.splits)

lemma write_file_effect:
  "write_file p d st = Inr st' \<Longrightarrow>
   \<exists>t. alter (resolve st p) (Some (File d)) (fs st) = Some t \<and> st' = st\<lparr>fs := t\<rparr>"
  by (auto simp: write_file_def split: if_splits option.splits node.splits)

lemma shutil_copy2_effect:
  "shutil_copy2 src dst st = Inr st' \<Longrightarrow>
   \<exists>d t p'. (p' = dst \<or> p' = join dst (basename src)) \<and>
     alter (resolve st p') (Some (File d)) (fs st) = Some t \<and> st' = st\<lparr>fs := t\<rparr>"
proof -
  assume a: "shutil_copy2 src dst st = Inr st'"
  let ?p = "if os_path_isdir st dst then join dst (basename src) else dst"
  from a obtain d where "write_file ?p d st = Inr st'"
    by (auto simp: shutil_copy2_def Let_def split: if_splits option.splits node.splits)
  from write_file_effect [OF this] show ?thesis
    by (metis (full_types))
qed

lemma incomparable_extend:
  "\<not> prefix D q \<Longrightarrow> \<not> prefix q D \<Longrightarrow> \<not> prefix (D @ x) q \<and> \<not> prefix q (D @ x)"
  by (auto simp: prefix_append dest: append_prefixD)

lemma incomparable_children:
  "\<not> prefix R L \<Longrightarrow> \<not> prefix L R \<Longrightarrow> \<not> prefix (L @ x) (R @ y) \<and> \<not> prefix (R @ y) (L @ x)"
  by (metis append_prefixD prefix_append prefix_same_cases prefixI)


lemma cwd_fs_update: "cwd (st\<lparr>fs := t\<rparr>) = cwd st" and home_fs_update: "home (st\<lparr>fs := t\<rparr>) = home st"
  by simp_all

lemma dir_step:
  assumes v: "valid_name item"
    and inc: "\<not> prefix (resolve st ROOT_PATH) (resolve st (LOGIC_PRO_PATH st))"
             "\<not> prefix (resolve st (LOGIC_PRO_PATH st)) (resolve st ROOT_PATH)"
    and rm: "(if os_path_exists st (join (LOGIC_PRO_PATH st) item)
              then shutil_rmtree (join (LOGIC_PRO_PATH st) item) st else Inr st) = Inr st1"
    and cp: "shutil_copytree (join ROOT_PATH item) (join (LOGIC_PRO_PATH st) item) st1 = Inr st2"
  shows "(\<exists>t. st2 = st\<lparr>fs := t\<rparr>) \<and>
     lookup (resolve st (LOGIC_PRO_PATH st) @ [item]) (fs st2) =
       lookup (resolve st ROOT_PATH @ [item]) (fs st) \<and>
     (\<forall>q. \<not> prefix (resolve st (LOGIC_PRO_PATH st) @ [item]) q \<and>
          \<not> prefix q (resolve st (LOGIC_PRO_PATH st) @ [item]) \<longrightarrow>
          lookup q (fs st2) = lookup q (fs st))"
proof -
  let ?R = "resolve st ROOT_PATH" and ?L = "resolve st (LOGIC_PRO_PATH st)"
  let ?S = "?R @ [item]" and ?D = "?L @ [item]"
  have rs: "resolve st (join ROOT_PATH item) = ?S"
    by (rule resolve_join [OF v ROOT_PATH_nonempty])
  have rd: "resolve st (join (LOGIC_PRO_PATH st) item) = ?D"
    by (rule resolve_join [OF v LOGIC_PRO_PATH_nonempty])
  have sd: "\<not> prefix ?D ?S \<and> \<not> prefix ?S ?D"
    using incomparable_children [OF inc] by blast
  from rm obtain t1 where st1: "st1 = st\<lparr>fs := t1\<rparr>"
    and f1: "\<forall>q. \<not> prefix ?D q \<and> \<not> prefix q ?D \<longrightarrow> lookup q t1 = lookup q (fs st)"
  proof (cases "os_path_exists st (join (LOGIC_PRO_PATH st) item)")
    case True
    with rm have "shutil_rmtree (join (LOGIC_PRO_PATH st) item) st = Inr st1" by simp
    from shutil_rmtree_effect [OF this] obtain t
      where t: "alter ?D None (fs st) = Some t" "st1 = st\<lparr>fs := t\<rparr>"
      by (auto simp: rd)
    from alter_lookup_other [OF t(1)] t(2) that show ?thesis by blast
  next
    case False
    with rm have "st1 = st\<lparr>fs := fs st\<rparr>" by simp
    with that show ?thesis by blast
  qed
  from shutil_copytree_effect [OF cp] obtain es t2 t3
    where src: "lookup ?S t1 = Some (Dir es)"
      and mk: "mkdirs ?D t1 = Inr t2"
      and al: "alter ?D (Some (Dir es)) t2 = Some t3"
      and st2: "st2 = st\<lparr>fs := t3\<rparr>"
    by (auto simp: st1 rs rd)
  from f1 sd src have s0: "lookup ?S (fs st) = Some (Dir es)" by metis
  have d3: "lookup ?D t3 = Some (Dir es)"
    by (rule alter_lookup_same [OF al])
  have f3: "lookup q t3 = lookup q (fs st)" if "\<not> prefix ?D q" "\<not> prefix q ?D" for q
    using alter_lookup_other [OF al that] mkdirs_lookup_other [OF mk that] f1 that by simp
  from st2 s0 d3 f3 show ?thesis by auto
qed

lemma file_step:
  assumes v: "valid_name item"
    and cp: "shutil_copy2 (join ROOT_PATH item) (join (LOGIC_PRO_PATH st) item) st = Inr st1"
  shows "(\<exists>t. st1 = st\<lparr>fs := t\<rparr>) \<and>
     (\<forall>q. \<not> prefix (resolve st (LOGIC_PRO_PATH st) @ [item]) q \<and>
          \<not> prefix q (resolve st (LOGIC_PRO_PATH st) @ [item]) \<longrightarrow>
          lookup q (fs st1) = lookup q (fs st))"
proof -
  let ?L = "resolve st (LOGIC_PRO_PATH st)"
  let ?D = "?L @ [item]"
  have rd: "resolve st (join (LOGIC_PRO_PATH st) item) = ?D"
    by (rule resolve_join [OF v LOGIC_PRO_PATH_nonempty])
  have rd': "resolve st (join (join (LOGIC_PRO_PATH st) item) (basename (join ROOT_PATH item)))
      = ?D @ [item]"
    by (simp add: basename_join [OF v ROOT_PATH_nonempty]
          resolve_join [OF v join_valid_nonempty [OF v]] rd)
  from shutil_copy2_effect [OF cp] obtain d t p'
    where p': "p' = join (LOGIC_PRO_PATH st) item \<or>
               p' = join (join (LOGIC_PRO_PATH st) item) (basename (join ROOT_PATH item))"
      and al: "alter (resolve st p') (Some (File d)) (fs st) = Some t"
      and st1: "st1 = st\<lparr>fs := t\<rparr>"
    by blast
  from p' rd rd' obtain x where x: "resolve st p' = ?D @ x"
    by (metis append_Nil2)
  have "lookup q t = lookup q (fs st)" if "\<not> prefix ?D q" "\<not> prefix q ?D" for q
    using alter_lookup_other [OF al [unfolded x]] incomparable_extend [OF that, of x] by blast
  with st1 show ?thesis by auto
qed


lemma os_path_isdir_join:
  "valid_name item \<Longrightarrow>
   os_path_isdir st (join ROOT_PATH item) \<longleftrightarrow>
     (\<exists>d. lookup (resolve st ROOT_PATH @ [item]) (fs st) = Some (Dir d))"
  by (auto simp: os_path_isdir_def resolve_join ROOT_PATH_nonempty join_valid_nonempty
      split: option.splits node.splits)

lemma copy_items_step:
  assumes v: "valid_name item"
    and inc: "\<not> prefix (resolve st ROOT_PATH) (resolve st (LOGIC_PRO_PATH st))"
             "\<not> prefix (resolve st (LOGIC_PRO_PATH st)) (resolve st ROOT_PATH)"
    and run: "copy_items (item # rest) copied st = Inr (copied', st')"
  shows "\<exists>copied2 t2.
     copy_items rest copied2 (st\<lparr>fs := t2\<rparr>) = Inr (copied', st') \<and>
     (\<forall>q. \<not> prefix (resolve st (LOGIC_PRO_PATH st) @ [item]) q \<and>
          \<not> prefix q (resolve st (LOGIC_PRO_PATH st) @ [item]) \<longrightarrow>
          lookup q t2 = lookup q (fs st)) \<and>
     (\<forall>d. lookup (resolve st ROOT_PATH @ [item]) (fs st) = Some (Dir d) \<longrightarrow>
          lookup (resolve st (LOGIC_PRO_PATH st) @ [item]) t2 = Some (Dir d))"
proof (cases "os_path_isdir st (join ROOT_PATH item)")
  case True
  from run True have "\<exists>st1 st2.
      (if os_path_exists st (join (LOGIC_PRO_PATH st) item)
       then shutil_rmtree (join (LOGIC_PRO_PATH st) item) st else Inr st) = Inr st1 \<and>
      shutil_copytree (join ROOT_PATH item) (join (LOGIC_PRO_PATH st) item) st1 = Inr st2 \<and>
      copy_items rest (copied @ [''Directory: '' @ item]) st2 = Inr (copied', st')"
    by (simp only: copy_items.simps Let_def if_True split: sum.splits) auto
  then obtain st1 st2
    where rm: "(if os_path_exists st (join (LOGIC_PRO_PATH st) item)
              then shutil_rmtree (join (LOGIC_PRO_PATH st) item) st else Inr st) = Inr st1"
      and cp: "shutil_copytree (join ROOT_PATH item) (join (LOGIC_PRO_PATH st) item) st1 = Inr st2"
      and rest: "copy_items rest (copied @ [''Directory: '' @ item]) st2 = Inr (copied', st')"
    by blast
  from dir_step [OF v inc rm cp] obtain t
    where t: "st2 = st\<lparr>fs := t\<rparr>"
      and d: "lookup (resolve st (LOGIC_PRO_PATH st) @ [item]) (fs st2) =
              lookup (resolve st ROOT_PATH @ [item]) (fs st)"
      and f: "\<forall>q. \<not> prefix (resolve st (LOGIC_PRO_PATH st) @ [item]) q \<and>
          \<not> prefix q (resolve st (LOGIC_PRO_PATH st) @ [item]) \<longrightarrow>
          lookup q (fs st2) = lookup q (fs st)"
    by blast
  have fst2: "fs st2 = t" by (simp add: t)
  show ?thesis
    apply (rule exI [of _ "copied @ [''Directory: '' @ item]"])
    apply (rule exI [of _ t])
    using rest d f by (simp add: fst2 t [symmetric])
next
  case False
  from run False have "\<exists>st1.
      shutil_copy2 (join ROOT_PATH item) (join (LOGIC_PRO_PATH st) item) st = Inr st1 \<and>
      copy_items rest (copied @ [''File: '' @ item]) st1 = Inr (copied', st')"
    by (simp only: copy_items.simps Let_def if_False split: sum.splits) auto
  then obtain st1
    where cp: "shutil_copy2 (join ROOT_PATH item) (join (LOGIC_PRO_PATH st) item) st = Inr st1"
      and rest: "copy_items rest (copied @ [''File: '' @ item]) st1 = Inr (copied', st')"
    by blast
  from False have nd: "\<And>d. lookup (resolve st ROOT_PATH @ [item]) (fs st) \<noteq> Some (Dir d)"
    by (simp add: os_path_isdir_join [OF v])
  from file_step [OF v cp] obtain t
    where t: "st1 = st\<lparr>fs := t\<rparr>"
      and f: "\<forall>q. \<not> prefix (resolve st (LOGIC_PRO_PATH st) @ [item]) q \<and>
          \<not> prefix q (resolve st (LOGIC_PRO_PATH st) @ [item]) \<longrightarrow>
          lookup q (fs st1) = lookup q (fs st)"
    by blast
  have fst1: "fs st1 = t" by (simp add: t)
  show ?thesis
    apply (rule exI [of _ "copied @ [''File: '' @ item]"])
    apply (rule exI [of _ t])
    using rest f nd by (simp add: fst1 t [symmetric])
qed


lemma copy_items_effect:
  assumes "copy_items items copied st = Inr (copied', st')"
    and "\<forall>n\<in>set items. valid_name n"
    and "\<not> prefix (resolve st ROOT_PATH) (resolve st (LOGIC_PRO_PATH st))"
    and "\<not> prefix (resolve st (LOGIC_PRO_PATH st)) (resolve st ROOT_PATH)"
  shows "(\<forall>q. (\<forall>n\<in>set items. \<not> prefix (resolve st (LOGIC_PRO_PATH st) @ [n]) q \<and>
                             \<not> prefix q (resolve st (LOGIC_PRO_PATH st) @ [n])) \<longrightarrow>
              lookup q (fs st') = lookup q (fs st)) \<and>
         (\<forall>n d. n \<in> set items \<and> lookup (resolve st ROOT_PATH @ [n]) (fs st) = Some (Dir d) \<longrightarrow>
              lookup (resolve st (LOGIC_PRO_PATH st) @ [n]) (fs st') = Some (Dir d))"
  using assms
proof (induction items arbitrary: copied st)
  case Nil
  then show ?case by simp
next
  case (Cons item rest)
  let ?R = "resolve st ROOT_PATH" and ?L = "resolve st (LOGIC_PRO_PATH st)"
  from Cons.prems(2) have v: "valid_name item" and vs: "\<forall>n\<in>set rest. valid_name n"
    by simp_all
  note inc = Cons.prems(3,4)
  from copy_items_step [OF v inc Cons.prems(1)] obtain copied2 t2
    where rest: "copy_items rest copied2 (st\<lparr>fs := t2\<rparr>) = Inr (copied', st')"
      and f: "\<And>q. \<not> prefix (?L @ [item]) q \<Longrightarrow> \<not> prefix q (?L @ [item]) \<Longrightarrow>
                lookup q t2 = lookup q (fs st)"
      and c: "\<And>d. lookup (?R @ [item]) (fs st) = Some (Dir d) \<Longrightarrow>
                lookup (?L @ [item]) t2 = Some (Dir d)"
    by blast
  have ih: "(\<forall>q. (\<forall>n\<in>set rest. \<not> prefix (?L @ [n]) q \<and> \<not> prefix q (?L @ [n])) \<longrightarrow>
              lookup q (fs st') = lookup q t2) \<and>
         (\<forall>n d. n \<in> set rest \<and> lookup (?R @ [n]) t2 = Some (Dir d) \<longrightarrow>
              lookup (?L @ [n]) (fs st') = Some (Dir d))"
    using Cons.IH [OF rest vs] inc by simp
  have frame: "lookup q (fs st') = lookup q (fs st)"
    if "\<forall>n\<in>set (item # rest). \<not> prefix (?L @ [n]) q \<and> \<not> prefix q (?L @ [n])" for q
  proof -
    from that ih have "lookup q (fs st') = lookup q t2" by simp
    also from that have "lookup q t2 = lookup q (fs st)" by (intro f) simp_all
    finally show ?thesis .
  qed
  have copy: "lookup (?L @ [n]) (fs st') = Some (Dir d)"
    if n: "n \<in> set (item # rest)" and d: "lookup (?R @ [n]) (fs st) = Some (Dir d)" for n d
  proof -
    have "lookup (?R @ [n]) t2 = lookup (?R @ [n]) (fs st)"
      using incomparable_children [OF inc, of "[item]" "[n]"] by (intro f) simp_all
    with d have src2: "lookup (?R @ [n]) t2 = Some (Dir d)" by simp
    show ?thesis
    proof (cases "n \<in> set rest")
      case True
      with ih src2 show ?thesis by blast
    next
      case False
      with n have ni: "n = item" by simp
      from False ni have "\<forall>m\<in>set rest. \<not> prefix (?L @ [m]) (?L @ [item]) \<and>
          \<not> prefix (?L @ [item]) (?L @ [m])"
        by auto
      with ih have "lookup (?L @ [item]) (fs st') = lookup (?L @ [item]) t2" by blast
      with c [of d] d ni show ?thesis by simp
    qed
  qed
  from frame copy show ?case by blast
qed


lemma fs_print: "fs (print line st) = fs st"
  by (simp add: print_def)

lemma fs_fold_print: "fs (fold (\<lambda>item. print (f item)) xs st) = fs st"
  by (induction xs arbitrary: st) (simp_all add: fs_print)

lemma os_listdir_lookup:
  "os_listdir st p = Inr items \<Longrightarrow>
   \<exists>es. lookup (resolve st p) (fs st) = Some (Dir es) \<and> items = map fst es"
  by (auto simp: os_listdir_def split: if_splits option.splits node.splits)

lemma child_listed:
  "lookup (p @ [n]) t = Some m \<Longrightarrow> lookup p t = Some (Dir es) \<Longrightarrow> n \<in> fst ` set es"
  by (auto simp: lookup_append split: option.splits dest: map_of_SomeD intro: rev_image_eqI)

lemma copy_to_logic_pro_effect:
  assumes "copy_to_logic_pro st = Inr st'" and "os_path_exists st ROOT_PATH"
  shows "\<exists>t1 items copied st2.
     mkdirs (resolve st (LOGIC_PRO_PATH st)) (fs st) = Inr t1 \<and>
     os_listdir (st\<lparr>fs := t1\<rparr>) ROOT_PATH = Inr items \<and>
     copy_items items [] (st\<lparr>fs := t1\<rparr>) = Inr (copied, st2) \<and>
     fs st' = fs st2"
  using assms
  by (auto simp: copy_to_logic_pro_def os_makedirs_def fs_print fs_fold_print
      split: if_splits sum.splits prod.splits)


text \<open>
  C8. Let the installer return normally, with the output root and the destination root
  at places of which neither lies inside the other, and with the output root listing
  proper file names.  Then for every directory \<open>n\<close> directly under the output root the
  entry \<open>n\<close> under the destination root is, afterwards, exactly the source directory:
  whatever an older destination directory of that name held is gone, every path below
  it resolves as it does in the source, and the source itself is untouched.
\<close>

theorem directory_replaced:
  assumes run: "copy_to_logic_pro st = Inr st'"
    and inc: "\<not> prefix (resolve st ROOT_PATH) (resolve st (LOGIC_PRO_PATH st))"
             "\<not> prefix (resolve st (LOGIC_PRO_PATH st)) (resolve st ROOT_PATH)"
    and ls: "os_listdir st ROOT_PATH = Inr items"
    and names: "\<forall>n\<in>set items. valid_name n"
    and src: "lookup (resolve st ROOT_PATH @ [n]) (fs st) = Some (Dir d)"
  shows "lookup (resolve st (LOGIC_PRO_PATH st) @ [n]) (fs st') = Some (Dir d) \<and>
         lookup (resolve st ROOT_PATH @ [n]) (fs st') = Some (Dir d) \<and>
         (\<forall>r. lookup (resolve st (LOGIC_PRO_PATH st) @ n # r) (fs st') =
              lookup (resolve st ROOT_PATH @ n # r) (fs st))"
proof -
  let ?R = "resolve st ROOT_PATH" and ?L = "resolve st (LOGIC_PRO_PATH st)"
  from os_listdir_lookup [OF ls] obtain es
    where es: "lookup ?R (fs st) = Some (Dir es)" and items: "items = map fst es"
    by blast
  from es have ex: "os_path_exists st ROOT_PATH"
    by (simp add: os_path_exists_def ROOT_PATH_nonempty)
  from copy_to_logic_pro_effect [OF run ex] obtain t1 items1 copied st2
    where mk: "mkdirs ?L (fs st) = Inr t1"
      and ls1: "os_listdir (st\<lparr>fs := t1\<rparr>) ROOT_PATH = Inr items1"
      and loop: "copy_items items1 [] (st\<lparr>fs := t1\<rparr>) = Inr (copied, st2)"
      and fs': "fs st' = fs st2"
    by blast
  have R1: "lookup ?R t1 = Some (Dir es)"
    using mkdirs_lookup_other [OF mk inc(2,1)] es by simp
  with ls1 have items1: "items1 = items"
    by (simp add: os_listdir_def items ROOT_PATH_nonempty)
  have "\<not> prefix ?L (?R @ [n]) \<and> \<not> prefix (?R @ [n]) ?L"
    using incomparable_children [OF inc, of "[]" "[n]"] by simp
  then have src1: "lookup (?R @ [n]) t1 = Some (Dir d)"
    using mkdirs_lookup_other [OF mk, of "?R @ [n]"] src by simp
  from child_listed [OF src es] have n: "n \<in> set items"
    by (simp add: items)
  have eff: "(\<forall>q. (\<forall>m\<in>set items. \<not> prefix (?L @ [m]) q \<and> \<not> prefix q (?L @ [m])) \<longrightarrow>
              lookup q (fs st2) = lookup q t1) \<and>
         (\<forall>m d. m \<in> set items \<and> lookup (?R @ [m]) t1 = Some (Dir d) \<longrightarrow>
              lookup (?L @ [m]) (fs st2) = Some (Dir d))"
    using copy_items_effect [OF loop [unfolded items1] _ _ _] names inc by simp
  from eff n src1 have dst: "lookup (?L @ [n]) (fs st2) = Some (Dir d)" by blast
  have "\<forall>m\<in>set items. \<not> prefix (?L @ [m]) (?R @ [n]) \<and> \<not> prefix (?R @ [n]) (?L @ [m])"
    using incomparable_children [OF inc] by blast
  with eff src1 have keep: "lookup (?R @ [n]) (fs st2) = Some (Dir d)" by simp
  have below: "lookup (?L @ n # r) (fs st') = lookup (?R @ n # r) (fs st)" for r
    using lookup_append [of "?L @ [n]" r "fs st2"] lookup_append [of "?R @ [n]" r "fs st"]
      dst src fs' by simp
  from dst keep below fs' show ?thesis by simp
qed

text \<open>
  The same at \<open>install_before\<close>: the older \<open>Lib\<close> under the destination root held
  \<open>old.plist\<close>; afterwards it holds what the source \<open>Lib\<close> holds and \<open>old.plist\<close> is gone.
\<close>

theorem directory_replaced_witness:
  "copy_to_logic_pro install_before =
     Inr \<lparr>fs = install_after, cwd = [''work''], home = ''/home/me'',
          stdout = [[CHR 0x0A] @ ''Copied to Logic Pro location (/home/me/Music/Audio Music Apps/Articulation Settings):'',
                    ''  Directory: Lib'', ''  File: x.plist''],
          stderr = []\<rparr> \<and>
   \<not> prefix (resolve install_before ROOT_PATH)
       (resolve install_before (LOGIC_PRO_PATH install_before)) \<and>
   \<not> prefix (resolve install_before (LOGIC_PRO_PATH install_before))
       (resolve install_before ROOT_PATH) \<and>
   os_listdir install_before ROOT_PATH = Inr [''Lib'', ''x.plist''] \<and>
   valid_name ''Lib'' \<and> valid_name ''x.plist'' \<and>
   lookup (resolve install_before ROOT_PATH @ [''Lib'']) (fs install_before) =
     Some (Dir [(''a.plist'', File (Raw ''new''))]) \<and>
   lookup (resolve install_before (LOGIC_PRO_PATH install_before) @ [''Lib''])
     (fs install_before) = Some (Dir [(''old.plist'', File (Raw ''old''))]) \<and>
   lookup (resolve install_before (LOGIC_PRO_PATH install_before) @ [''Lib''])
     install_after = Some (Dir [(''a.plist'', File (Raw ''new''))]) \<and>
   lookup (resolve install_before (LOGIC_PRO_PATH install_before) @ [''Lib'', ''old.plist''])
     install_after = None"
proof -
  have run: "copy_to_logic_pro install_before =
     Inr \<lparr>fs = install_after, cwd = [''work''], home = ''/home/me'',
          stdout = [[CHR 0x0A] @ ''Copied to Logic Pro location (/home/me/Music/Audio Music Apps/Articulation Settings):'',
                    ''  Directory: Lib'', ''  File: x.plist''],
          stderr = []\<rparr>"
    by code_simp
  have inc1: "\<not> prefix (resolve install_before ROOT_PATH)
       (resolve install_before (LOGIC_PRO_PATH install_before))"
    by code_simp
  have inc2: "\<not> prefix (resolve install_before (LOGIC_PRO_PATH install_before))
       (resolve install_before ROOT_PATH)"
    by code_simp
  have ls: "os_listdir install_before ROOT_PATH = Inr [''Lib'', ''x.plist'']"
    by code_simp
  have v1: "valid_name ''Lib''" and v2: "valid_name ''x.plist''"
    by code_simp+
  then have names: "\<forall>n\<in>set [''Lib'', ''x.plist'']. valid_name n"
    by simp
  have src: "lookup (resolve install_before ROOT_PATH @ [''Lib'']) (fs install_before) =
     Some (Dir [(''a.plist'', File (Raw ''new''))])"
    by code_simp
  have old: "lookup (resolve install_before (LOGIC_PRO_PATH install_before) @ [''Lib''])
     (fs install_before) = Some (Dir [(''old.plist'', File (Raw ''old''))])"
    by code_simp
  from directory_replaced [OF run inc1 inc2 ls names src]
  have c: "lookup (resolve install_before (LOGIC_PRO_PATH install_before) @ [''Lib''])
       install_after = Some (Dir [(''a.plist'', File (Raw ''new''))]) \<and>
     (\<forall>r. lookup (resolve install_before (LOGIC_PRO_PATH install_before) @ ''Lib'' # r)
            install_after =
          lookup (resolve install_before ROOT_PATH @ ''Lib'' # r) (fs install_before))"
    using src by simp
  from c have new: "lookup (resolve install_before (LOGIC_PRO_PATH install_before) @ [''Lib''])
       install_after = Some (Dir [(''a.plist'', File (Raw ''new''))])"
    by (rule conjunct1)
  from c have gone: "lookup (resolve install_before (LOGIC_PRO_PATH install_before)
                 @ [''Lib'', ''old.plist'']) install_after =
       lookup (resolve install_before ROOT_PATH @ [''Lib'', ''old.plist'']) (fs install_before)"
    by blast
  have "lookup (resolve install_before ROOT_PATH @ [''Lib'', ''old.plist'']) (fs install_before)
      = None"
    by code_simp
  with gone have gone': "lookup (resolve install_before (LOGIC_PRO_PATH install_before)
                 @ [''Lib'', ''old.plist'']) install_after = None"
    by simp
  from run inc1 inc2 ls v1 v2 src old new gone' show ?thesis by blast
qed


section \<open>The file that the generation writes\<close>

text \<open>
  When \<open>generate_articulation_set\<close> returns, the file at the output path holds the dump
  of the document \<open>plist_data\<close>, and the path is returned.
\<close>

lemma resolve_print [simp]: "resolve (print line st) p = resolve st p"
  by (simp add: resolve_def print_def)

lemma write_plist_effect:
  "write_plist p doc st = Inr st' \<Longrightarrow>
   \<exists>t. alter (resolve st p) (Some (File (Dumped doc))) (fs st) = Some t \<and> st' = st\<lparr>fs := t\<rparr>"
  by (auto simp: write_plist_def split: sum.splits option.splits dest: write_file_effect)

lemma os_makedirs_effect:
  "os_makedirs p st = Inr st' \<Longrightarrow> \<exists>t. st' = st\<lparr>fs := t\<rparr>"
  by (auto simp: os_makedirs_def split: if_splits sum.splits)

lemma generate_articulation_set_document:
  assumes "generate_articulation_set m name p st = Inr (r, st')"
  shows "\<exists>doc. plist_data m p = Inr doc \<and> r = p \<and>
           lookup (resolve st p) (fs st') = Some (File (Dumped doc))"
proof -
  let ?doc = "PDict [(''Articulations'', PArray (records_from m 1 (sorted_keys m))),
                 (''InputMidiChannel'', PInt (- 1)),
                 (''MultipleOutputsActive'', PBool False),
                 (''Name'', PStr (basename p)),
                 (''OctaveOffset'', PInt 0),
                 (''Switches'', PArray []),
                 (''SwitchingEnabled'', PBool False)]"
  have unf: "generate_articulation_set m name p st =
      (case (if dirname p \<noteq> [] then os_makedirs (dirname p) st else Inr st) of
         Inl e \<Rightarrow> Inl e
       | Inr st1 \<Rightarrow>
           (case write_plist p ?doc st1 of
              Inl e \<Rightarrow> Inl e
            | Inr st2 \<Rightarrow>
                Inr (p,
                     print (''  Articulations: ''
                              @ str_nat (length (records_from m 1 (sorted_keys m))))
                       (print (''  Name: '' @ basename p)
                          (print (''Generated articulation set: '' @ p) st2)))))"
    by (simp only: generate_articulation_set_def loop_on_sorted_keys Let_def sum.case)
  obtain st1 where mk: "(if dirname p \<noteq> [] then os_makedirs (dirname p) st else Inr st) = Inr st1"
    using assms unfolding unf
    by (cases "if dirname p \<noteq> [] then os_makedirs (dirname p) st else Inr st") simp_all
  obtain st2 where wr: "write_plist p ?doc st1 = Inr st2"
    using assms unfolding unf mk
    by (cases "write_plist p ?doc st1") simp_all
  from assms mk wr have "r = p \<and> fs st' = fs st2"
    by (auto simp add: unf fs_print)
  then have r: "r = p" and fs': "fs st' = fs st2" by simp_all
  have "\<exists>t1. st1 = st\<lparr>fs := t1\<rparr>"
  proof (cases "dirname p \<noteq> []")
    case True
    with mk show ?thesis by (auto dest: os_makedirs_effect)
  next
    case False
    with mk have "st1 = st\<lparr>fs := fs st\<rparr>" by simp
    then show ?thesis ..
  qed
  then obtain t1 where st1: "st1 = st\<lparr>fs := t1\<rparr>" ..
  from write_plist_effect [OF wr] obtain t2
    where "alter (resolve st p) (Some (File (Dumped ?doc))) t1 = Some t2" "fs st2 = t2"
    by (auto simp: st1)
  with alter_lookup_same have "lookup (resolve st p) (fs st2) = Some (File (Dumped ?doc))"
    by blast
  with r fs' show ?thesis by (simp add: plist_data_eq)
qed


end
